theory Spec2Isabelle
  imports Complex_Main
begin

section \<open>JavaScript numbers\<close>

text \<open>
  The contour module (contour.js) computes with JavaScript numbers.  A number is modelled
  as an exact real or one of the three special values of IEEE arithmetic.  Rounding,
  overflow of finite values and the sign of zero are not modelled (a zero divisor is
  taken as +0); everything else the operators do on the special values is written out,
  so a division by zero yields \<open>PInf\<close>, \<open>NInf\<close> or \<open>NaN\<close> as in the program and not the
  value 0 that HOL's division returns.
\<close>

datatype jsnum = Num real | PInf | NInf | NaN

fun js_neg :: "jsnum \<Rightarrow> jsnum" where
  "js_neg (Num a) = Num (- a)"
| "js_neg PInf = NInf"
| "js_neg NInf = PInf"
| "js_neg NaN = NaN"

fun js_add :: "jsnum \<Rightarrow> jsnum \<Rightarrow> jsnum" where
  "js_add NaN b = NaN"
| "js_add a NaN = NaN"
| "js_add (Num a) (Num b) = Num (a + b)"
| "js_add PInf NInf = NaN"
| "js_add NInf PInf = NaN"
| "js_add PInf b = PInf"
| "js_add a PInf = PInf"
| "js_add NInf b = NInf"
| "js_add a NInf = NInf"

definition js_sub :: "jsnum \<Rightarrow> jsnum \<Rightarrow> jsnum" where
  "js_sub a b = js_add a (js_neg b)"

text \<open>The sign rule of a product or quotient with an infinite operand.\<close>

definition signed_inf :: "bool \<Rightarrow> jsnum" where
  "signed_inf positive = (if positive then PInf else NInf)"

fun js_mul :: "jsnum \<Rightarrow> jsnum \<Rightarrow> jsnum" where
  "js_mul NaN b = NaN"
| "js_mul a NaN = NaN"
| "js_mul (Num a) (Num b) = Num (a * b)"
| "js_mul PInf (Num b) = (if b = 0 then NaN else signed_inf (0 < b))"
| "js_mul NInf (Num b) = (if b = 0 then NaN else signed_inf (b < 0))"
| "js_mul (Num a) PInf = (if a = 0 then NaN else signed_inf (0 < a))"
| "js_mul (Num a) NInf = (if a = 0 then NaN else signed_inf (a < 0))"
| "js_mul PInf PInf = PInf"
| "js_mul NInf NInf = PInf"
| "js_mul PInf NInf = NInf"
| "js_mul NInf PInf = NInf"

fun js_div :: "jsnum \<Rightarrow> jsnum \<Rightarrow> jsnum" where
  "js_div NaN b = NaN"
| "js_div a NaN = NaN"
| "js_div (Num a) (Num b) =
     (if b \<noteq> 0 then Num (a / b) else if a = 0 then NaN else signed_inf (0 < a))"
| "js_div (Num a) PInf = Num 0"
| "js_div (Num a) NInf = Num 0"
| "js_div PInf (Num b) = signed_inf (0 \<le> b)"
| "js_div NInf (Num b) = signed_inf (b < 0)"
| "js_div PInf PInf = NaN"
| "js_div PInf NInf = NaN"
| "js_div NInf PInf = NaN"
| "js_div NInf NInf = NaN"

text \<open>\<^verbatim>\<open>Math.floor\<close>, \<^verbatim>\<open>Math.ceil\<close>, \<^verbatim>\<open>Math.exp\<close>.\<close>

fun js_floor :: "jsnum \<Rightarrow> jsnum" where
  "js_floor (Num a) = Num (of_int \<lfloor>a\<rfloor>)"
| "js_floor a = a"

fun js_ceil :: "jsnum \<Rightarrow> jsnum" where
  "js_ceil (Num a) = Num (of_int \<lceil>a\<rceil>)"
| "js_ceil a = a"

fun js_exp :: "jsnum \<Rightarrow> jsnum" where
  "js_exp (Num a) = Num (exp a)"
| "js_exp PInf = PInf"
| "js_exp NInf = Num 0"
| "js_exp NaN = NaN"

text \<open>The comparisons \<^verbatim>\<open><\<close> and \<^verbatim>\<open><=\<close>: false as soon as one side is NaN.\<close>

fun js_lt :: "jsnum \<Rightarrow> jsnum \<Rightarrow> bool" where
  "js_lt NaN b = False"
| "js_lt a NaN = False"
| "js_lt (Num a) (Num b) = (a < b)"
| "js_lt a NInf = False"
| "js_lt PInf b = False"
| "js_lt NInf b = True"
| "js_lt a PInf = True"

fun js_le :: "jsnum \<Rightarrow> jsnum \<Rightarrow> bool" where
  "js_le NaN b = False"
| "js_le a NaN = False"
| "js_le (Num a) (Num b) = (a \<le> b)"
| "js_le NInf b = True"
| "js_le a PInf = True"
| "js_le a NInf = False"
| "js_le PInf b = False"

text \<open>\<^verbatim>\<open>Math.max\<close> and \<^verbatim>\<open>Math.min\<close> of two arguments: NaN if either argument is NaN.\<close>

fun js_max :: "jsnum \<Rightarrow> jsnum \<Rightarrow> jsnum" where
  "js_max NaN b = NaN"
| "js_max a NaN = NaN"
| "js_max a b = (if js_lt a b then b else a)"

fun js_min :: "jsnum \<Rightarrow> jsnum \<Rightarrow> jsnum" where
  "js_min NaN b = NaN"
| "js_min a NaN = NaN"
| "js_min a b = (if js_lt b a then b else a)"

definition is_finite :: "jsnum \<Rightarrow> bool" where
  "is_finite a = (case a of Num r \<Rightarrow> True | _ \<Rightarrow> False)"

text \<open>
  A counting loop \<^verbatim>\<open>for (let i = lo; i <= hi; i++) body\<close> over JavaScript numbers.  The
  loop does not return when \<open>lo\<close> is \<open>-Infinity\<close> or \<open>hi\<close> is \<open>+Infinity\<close>; not returning is
  the value \<open>None\<close>.
\<close>

partial_function (option) for_loop ::
  "jsnum \<Rightarrow> jsnum \<Rightarrow> (jsnum \<Rightarrow> 's \<Rightarrow> 's option) \<Rightarrow> 's \<Rightarrow> 's option" where
  "for_loop i hi body s =
     (if js_le i hi
      then (case body i s of
              None \<Rightarrow> None
            | Some s' \<Rightarrow> for_loop (js_add i (Num 1)) hi body s')
      else Some s)"

declare for_loop.simps [code]

section \<open>Data model\<close>

record type_params =
  sigma :: real
  amplitude :: real

text \<open>
  The module's \<^verbatim>\<open>CONFIG\<close> object.  It is a mutable singleton in the source
  (\<^verbatim>\<open>updateConfig\<close> merges into it); here every function takes the configuration it
  reads as an argument.  \<open>typeParams\<close> is the object literal as a list of own properties;
  the lookup is \<open>map_of\<close>.
\<close>

record config =
  gridWidth :: nat
  gridHeight :: nat
  contourLevels :: nat
  typeParams :: "(string \<times> type_params) list"
  defaultParams :: type_params
  cutoffMultiplier :: real

definition CONFIG :: config where
  "CONFIG = \<lparr>
     gridWidth = 150,
     gridHeight = 150,
     contourLevels = 12,
     typeParams =
       [(''hospital'', \<lparr>sigma = 6 / 1000, amplitude = 1\<rparr>),
        (''clinic'', \<lparr>sigma = 3 / 1000, amplitude = 1 / 2\<rparr>),
        (''library'', \<lparr>sigma = 5 / 1000, amplitude = 7 / 10\<rparr>),
        (''social'', \<lparr>sigma = 4 / 1000, amplitude = 8 / 10\<rparr>),
        (''pharmacy'', \<lparr>sigma = 2 / 1000, amplitude = 3 / 10\<rparr>),
        (''community'', \<lparr>sigma = 3 / 1000, amplitude = 1 / 2\<rparr>),
        (''kindergarten'', \<lparr>sigma = 2 / 1000, amplitude = 4 / 10\<rparr>)],
     defaultParams = \<lparr>sigma = 3 / 1000, amplitude = 1 / 2\<rparr>,
     cutoffMultiplier = 3 \<rparr>"

text \<open>
  A resource point; only the fields the contour module reads (\<open>rtype\<close> is the property
  \<^verbatim>\<open>type\<close>, a string).  The coordinates are finite numbers: the module's callers filter
  points without coordinates.  The coordinates of the bounds are finite numbers too.
\<close>

record resource =
  rtype :: string
  lat :: real
  lng :: real

record bounds =
  south :: real
  west :: real
  north :: real
  east :: real

text \<open>\<^verbatim>\<open>pixelBounds = {left, top, width, height}\<close>.\<close>

record pixelBounds =
  pleft :: real
  ptop :: real
  pwidth :: real
  pheight :: real

section \<open>generateScalarField\<close>

text \<open>
  \<^verbatim>\<open>field[i] += energy\<close> on a \<^verbatim>\<open>Float32Array\<close>: a write at an index that is not an
  integer inside the array is ignored.  The rounding of the stored value to single
  precision is not modelled.
\<close>

definition f32_add :: "jsnum list \<Rightarrow> jsnum \<Rightarrow> jsnum \<Rightarrow> jsnum list" where
  "f32_add field i e =
     (case i of
        Num r \<Rightarrow>
          if r = of_int \<lfloor>r\<rfloor> \<and> 0 \<le> r \<and> r < real (length field)
          then field[nat \<lfloor>r\<rfloor> := js_add (field ! nat \<lfloor>r\<rfloor>) e]
          else field
      | _ \<Rightarrow> field)"

text \<open>
  \<^verbatim>\<open>CONFIG.typeParams[resource.type] || CONFIG.defaultParams\<close>.  \<open>typeParams\<close> is a
  plain object, so indexing it with a name finds an own property (a profile), or a
  property inherited from \<^verbatim>\<open>Object.prototype\<close> (a function, or the prototype itself
  for \<^verbatim>\<open>__proto__\<close>), or nothing (\<^verbatim>\<open>undefined\<close>, here \<open>None\<close>).  An inherited value
  is truthy, so \<^verbatim>\<open>||\<close> does not replace it by the default profile, and it has
  neither a \<^verbatim>\<open>sigma\<close> nor an \<^verbatim>\<open>amplitude\<close>: both are \<^verbatim>\<open>undefined\<close>, which every
  arithmetic operation of the function turns into NaN.
\<close>

datatype js_params = Profile type_params | Inherited

definition object_prototype_names :: "string list" where
  "object_prototype_names =
     [''constructor'', ''toString'', ''toLocaleString'', ''valueOf'', ''hasOwnProperty'',
      ''isPrototypeOf'', ''propertyIsEnumerable'', ''__proto__'', ''__defineGetter__'',
      ''__defineSetter__'', ''__lookupGetter__'', ''__lookupSetter__'']"

definition typeParams_get :: "config \<Rightarrow> string \<Rightarrow> js_params option" where
  "typeParams_get cfg name =
     (case map_of (typeParams cfg) name of
        Some p \<Rightarrow> Some (Profile p)
      | None \<Rightarrow> if name \<in> set object_prototype_names then Some Inherited else None)"

definition lookup_params :: "config \<Rightarrow> resource \<Rightarrow> js_params" where
  "lookup_params cfg r =
     (case typeParams_get cfg (rtype r) of
        Some v \<Rightarrow> v
      | None \<Rightarrow> Profile (defaultParams cfg))"

text \<open>\<^verbatim>\<open>const { sigma, amplitude } = params\<close>, as the numbers the arithmetic sees.\<close>

fun sigma_of :: "js_params \<Rightarrow> jsnum" where
  "sigma_of (Profile p) = Num (sigma p)"
| "sigma_of Inherited = NaN"

fun amplitude_of :: "js_params \<Rightarrow> jsnum" where
  "amplitude_of (Profile p) = Num (amplitude p)"
| "amplitude_of Inherited = NaN"

text \<open>
  The body of the inner loop over \<open>x\<close> (lines 77 to 83).  The arguments before \<open>x\<close> are
  the variables of the enclosing scopes that the body reads.
\<close>

definition gsf_cell ::
  "config \<Rightarrow> bounds \<Rightarrow> resource \<Rightarrow> jsnum \<Rightarrow> jsnum \<Rightarrow> jsnum \<Rightarrow> jsnum \<Rightarrow> jsnum \<Rightarrow>
   jsnum \<Rightarrow> jsnum list \<Rightarrow> jsnum list option" where
  "gsf_cell cfg b r cellWidth amplitude' sigmaSq dLatSq y x field =
     (let cellLng = js_add (Num (west b)) (js_mul (js_add x (Num (1 / 2))) cellWidth);
          dLng = js_sub cellLng (Num (lng r));
          distSq = js_add dLatSq (js_mul dLng dLng);
          energy = js_mul amplitude'
                     (js_exp (js_div (js_neg distSq) (js_mul (Num 2) sigmaSq)))
      in Some (f32_add field (js_add (js_mul y (Num (real (gridWidth cfg)))) x) energy))"

text \<open>The body of the loop over \<open>y\<close> (lines 72 to 84).\<close>

definition gsf_row ::
  "config \<Rightarrow> bounds \<Rightarrow> resource \<Rightarrow> jsnum \<Rightarrow> jsnum \<Rightarrow> jsnum \<Rightarrow> jsnum \<Rightarrow> jsnum \<Rightarrow>
   jsnum \<Rightarrow> jsnum \<Rightarrow> jsnum list \<Rightarrow> jsnum list option" where
  "gsf_row cfg b r cellWidth cellHeight amplitude' sigmaSq minX maxX y field =
     (let cellLat = js_add (Num (south b)) (js_mul (js_add y (Num (1 / 2))) cellHeight);
          dLat = js_sub cellLat (Num (lat r));
          dLatSq = js_mul dLat dLat
      in for_loop minX maxX (gsf_cell cfg b r cellWidth amplitude' sigmaSq dLatSq y) field)"

text \<open>
  The four bounds of the cell range a resource updates (lines 65 to 68).  The quotient
  under \<open>floor\<close> and \<open>ceil\<close> is the exact one here.  The program rounds the
  subtractions and the division to doubles, so where the exact quotient is a whole
  number, or within rounding of one, its bound can lie one cell further out or in than
  the bound of the model.  No statement below depends on which of the two it is: the
  statements about the cells outside the range keep a margin of one more cell.
\<close>

definition range_lo :: "jsnum \<Rightarrow> jsnum \<Rightarrow> jsnum \<Rightarrow> jsnum \<Rightarrow> jsnum" where
  "range_lo pos cutoff origin cellSize =
     js_max (Num 0) (js_floor (js_div (js_sub (js_sub pos cutoff) origin) cellSize))"

definition range_hi :: "nat \<Rightarrow> jsnum \<Rightarrow> jsnum \<Rightarrow> jsnum \<Rightarrow> jsnum \<Rightarrow> jsnum" where
  "range_hi gridSize pos cutoff origin cellSize =
     js_min (js_sub (Num (real gridSize)) (Num 1))
       (js_ceil (js_div (js_sub (js_add pos cutoff) origin) cellSize))"

text \<open>The body of the loop over the resources (lines 57 to 85).\<close>

definition gsf_resource ::
  "config \<Rightarrow> bounds \<Rightarrow> jsnum \<Rightarrow> jsnum \<Rightarrow> resource \<Rightarrow> jsnum list \<Rightarrow> jsnum list option"
  where
  "gsf_resource cfg b cellWidth cellHeight r field =
     (let params = lookup_params cfg r;
          sigma' = sigma_of params;
          amplitude' = amplitude_of params;
          sigmaSq = js_mul sigma' sigma';
          cutoff = js_mul (Num (cutoffMultiplier cfg)) sigma';
          minX = range_lo (Num (lng r)) cutoff (Num (west b)) cellWidth;
          maxX = range_hi (gridWidth cfg) (Num (lng r)) cutoff (Num (west b)) cellWidth;
          minY = range_lo (Num (lat r)) cutoff (Num (south b)) cellHeight;
          maxY = range_hi (gridHeight cfg) (Num (lat r)) cutoff (Num (south b)) cellHeight
      in for_loop minY maxY
           (gsf_row cfg b r cellWidth cellHeight amplitude' sigmaSq minX maxX) field)"

text \<open>The loop over the resources (line 56).\<close>

fun gsf_resources ::
  "config \<Rightarrow> bounds \<Rightarrow> jsnum \<Rightarrow> jsnum \<Rightarrow> resource list \<Rightarrow> jsnum list \<Rightarrow> jsnum list option"
  where
  "gsf_resources cfg b cellWidth cellHeight [] field = Some field"
| "gsf_resources cfg b cellWidth cellHeight (r # rs) field =
     (case gsf_resource cfg b cellWidth cellHeight r field of
        None \<Rightarrow> None
      | Some field' \<Rightarrow> gsf_resources cfg b cellWidth cellHeight rs field')"

text \<open>
  The size of a cell, \<^verbatim>\<open>(bounds.east - bounds.west) / gridWidth\<close>, and the function
  itself: a fresh array of zeros, the two cell sizes, the loop.
\<close>

definition cell_size :: "real \<Rightarrow> real \<Rightarrow> nat \<Rightarrow> jsnum" where
  "cell_size hi lo n = js_div (js_sub (Num hi) (Num lo)) (Num (real n))"

definition generateScalarField :: "config \<Rightarrow> resource list \<Rightarrow> bounds \<Rightarrow> jsnum list option"
  where
  "generateScalarField cfg resources b =
     (let field = replicate (gridWidth cfg * gridHeight cfg) (Num 0);
          cellWidth = cell_size (east b) (west b) (gridWidth cfg);
          cellHeight = cell_size (north b) (south b) (gridHeight cfg)
      in gsf_resources cfg b cellWidth cellHeight resources field)"

section \<open>generateContours\<close>

text \<open>
  A contour object.  \<open>cvalue\<close> is the property \<^verbatim>\<open>value\<close> that d3 sets, \<open>coordinates\<close> its
  MultiPolygon geometry (polygons of rings of vertices) in grid space.  The properties
  \<^verbatim>\<open>normalizedValue\<close> and \<^verbatim>\<open>pixelCoordinates\<close> are added later, so they are optional.
\<close>

type_synonym vertex = "jsnum \<times> jsnum"

type_synonym multipolygon = "vertex list list list"

record contour =
  cvalue :: jsnum
  coordinates :: multipolygon
  normalizedValue :: "jsnum option"
  pixelCoordinates :: "multipolygon option"

text \<open>The argument \<^verbatim>\<open>options = {width, height, levels}\<close>, every property optional.\<close>

record options =
  owidth :: "nat option"
  oheight :: "nat option"
  olevels :: "nat option"

definition no_options :: options where
  "no_options = \<lparr>owidth = None, oheight = None, olevels = None\<rparr>"

text \<open>\<^verbatim>\<open>options.width || CONFIG.gridWidth\<close>: a missing or zero option gives the default.\<close>

definition or_default :: "nat option \<Rightarrow> nat \<Rightarrow> nat" where
  "or_default opt d = (case opt of None \<Rightarrow> d | Some n \<Rightarrow> if n = 0 then d else n)"

text \<open>The scan for the minimum and maximum of the field (lines 103 to 107).\<close>

definition scan_step :: "jsnum \<Rightarrow> jsnum \<times> jsnum \<Rightarrow> jsnum \<times> jsnum" where
  "scan_step val mm =
     (let mn = (if js_lt val (fst mm) then val else fst mm);
          mx = (if js_lt (snd mm) val then val else snd mm)
      in (mn, mx))"

definition field_min_max :: "jsnum list \<Rightarrow> jsnum \<times> jsnum" where
  "field_min_max field = fold scan_step field (PInf, NInf)"

text \<open>
  d3-contour is a library outside the repository.  Its generator is modelled by what the
  module relies on: called with an array of thresholds it sorts them ascending and
  returns one contour per threshold, carrying the threshold as \<^verbatim>\<open>value\<close>.  The ring
  geometry it extracts (marching squares) is the parameter \<open>isolines\<close>, a function of
  the grid size, the field and the threshold.
\<close>

fun d3_insert :: "jsnum \<Rightarrow> jsnum list \<Rightarrow> jsnum list" where
  "d3_insert v [] = [v]"
| "d3_insert v (w # ws) = (if js_lt v w then v # w # ws else w # d3_insert v ws)"

definition d3_sort :: "jsnum list \<Rightarrow> jsnum list" where
  "d3_sort vs = foldr d3_insert vs []"

definition d3_contours ::
  "(nat \<Rightarrow> nat \<Rightarrow> jsnum list \<Rightarrow> jsnum \<Rightarrow> multipolygon) \<Rightarrow> nat \<Rightarrow> nat \<Rightarrow> jsnum list \<Rightarrow>
   jsnum list \<Rightarrow> contour list" where
  "d3_contours isolines width height thresholds field =
     map (\<lambda>v. \<lparr>cvalue = v, coordinates = isolines width height field v,
               normalizedValue = None, pixelCoordinates = None\<rparr>)
       (d3_sort thresholds)"

definition thresholds_of :: "jsnum \<Rightarrow> jsnum \<Rightarrow> nat \<Rightarrow> jsnum list" where
  "thresholds_of mn mx numLevels =
     (let step = js_div (js_sub mx mn) (js_add (Num (real numLevels)) (Num 1))
      in map (\<lambda>i. js_add mn (js_mul step (Num (real i)))) [1..<numLevels + 1])"

definition generateContours ::
  "config \<Rightarrow> (nat \<Rightarrow> nat \<Rightarrow> jsnum list \<Rightarrow> jsnum \<Rightarrow> multipolygon) \<Rightarrow> jsnum list \<Rightarrow> options \<Rightarrow>
   contour list" where
  "generateContours cfg isolines field opts =
     (let width = or_default (owidth opts) (gridWidth cfg);
          height = or_default (oheight opts) (gridHeight cfg);
          numLevels = or_default (olevels opts) (contourLevels cfg);
          mm = field_min_max field;
          mn = fst mm;
          mx = snd mm
      in if js_lt mx (Num (1 / 100)) then []
         else
           let thresholds = thresholds_of mn mx numLevels;
               contours = d3_contours isolines width height thresholds field
           in map (\<lambda>c. c\<lparr>normalizedValue :=
                            Some (js_div (js_sub (cvalue c) mn) (js_sub mx mn))\<rparr>)
                contours)"

section \<open>Coordinate transforms\<close>

definition geo_vertex :: "bounds \<Rightarrow> jsnum \<Rightarrow> jsnum \<Rightarrow> vertex \<Rightarrow> vertex" where
  "geo_vertex b cellWidth cellHeight v =
     (js_add (Num (west b)) (js_mul (fst v) cellWidth),
      js_add (Num (south b)) (js_mul (snd v) cellHeight))"

definition transformToGeo :: "config \<Rightarrow> contour list \<Rightarrow> bounds \<Rightarrow> contour list" where
  "transformToGeo cfg contours b =
     (let cellWidth = cell_size (east b) (west b) (gridWidth cfg);
          cellHeight = cell_size (north b) (south b) (gridHeight cfg)
      in map (\<lambda>c. c\<lparr>coordinates :=
                       map (map (map (geo_vertex b cellWidth cellHeight))) (coordinates c)\<rparr>)
           contours)"

definition pixel_vertex :: "config \<Rightarrow> pixelBounds \<Rightarrow> jsnum \<Rightarrow> jsnum \<Rightarrow> vertex \<Rightarrow> vertex"
  where
  "pixel_vertex cfg pb scaleX scaleY v =
     (js_add (Num (pleft pb)) (js_mul (fst v) scaleX),
      js_add (Num (ptop pb))
        (js_mul (js_sub (Num (real (gridHeight cfg))) (snd v)) scaleY))"

definition transformToPixels :: "config \<Rightarrow> contour list \<Rightarrow> pixelBounds \<Rightarrow> contour list"
  where
  "transformToPixels cfg contours pb =
     (let scaleX = js_div (Num (pwidth pb)) (Num (real (gridWidth cfg)));
          scaleY = js_div (Num (pheight pb)) (Num (real (gridHeight cfg)))
      in map (\<lambda>c. c\<lparr>pixelCoordinates :=
                       Some (map (map (map (pixel_vertex cfg pb scaleX scaleY)))
                               (coordinates c))\<rparr>)
           contours)"

section \<open>process\<close>

text \<open>
  The entry point.  Besides its arguments and the configuration it reads the clock
  twice (\<^verbatim>\<open>performance.now()\<close>); the two readings are the arguments \<open>t0\<close> and \<open>t1\<close>.
  The calls of \<^verbatim>\<open>console.log\<close> are left out.  The property \<^verbatim>\<open>contourLevels\<close> of
  the statistics is the field \<open>contourCount\<close>, since \<open>contourLevels\<close> names a field of the
  configuration.
\<close>

record stats =
  resourceCount :: nat
  contourCount :: nat
  processingTime :: jsnum

record result =
  contours :: "contour list"
  field :: "jsnum list"
  stats :: stats

definition process ::
  "config \<Rightarrow> (nat \<Rightarrow> nat \<Rightarrow> jsnum list \<Rightarrow> jsnum \<Rightarrow> multipolygon) \<Rightarrow> real \<Rightarrow> real \<Rightarrow>
   resource list \<Rightarrow> bounds \<Rightarrow> pixelBounds \<Rightarrow> result option" where
  "process cfg isolines t0 t1 resources b pb =
     (let startTime = Num t0
      in case generateScalarField cfg resources b of
           None \<Rightarrow> None
         | Some fld \<Rightarrow>
             let cs = generateContours cfg isolines fld no_options;
                 pixelContours = transformToPixels cfg cs pb;
                 elapsed = js_sub (Num t1) startTime
             in Some \<lparr>contours = pixelContours, field = fld,
                      stats = \<lparr>resourceCount = length resources,
                                contourCount = length cs,
                                processingTime = elapsed\<rparr>\<rparr>)"

section \<open>The transforms on the heap\<close>

text \<open>
  The functions \<open>transformToGeo\<close> and \<open>transformToPixels\<close> above take and return values.
  In the program the contours are objects that the caller still holds after the call,
  so whether a transform changes them is a question about the heap.  Here the two
  functions are written a second time over an explicit heap: a list of arrays and
  objects, a reference being an index into it.  An object is its list of properties in
  insertion order.  Allocation appends to the heap; nothing is ever freed.
\<close>

type_synonym addr = nat

datatype jsval = Number jsnum | Ref addr | Str string | Undefined

datatype jsobj = Array "jsval list" | Object "(string \<times> jsval) list"

type_synonym heap = "jsobj list"

definition alloc :: "jsobj \<Rightarrow> heap \<Rightarrow> jsval \<times> heap" where
  "alloc ob h = (Ref (length h), h @ [ob])"

definition deref :: "heap \<Rightarrow> jsval \<Rightarrow> jsobj option" where
  "deref h v = (case v of Ref a \<Rightarrow> if a < length h then Some (h ! a) else None | _ \<Rightarrow> None)"

text \<open>
  \<^verbatim>\<open>Array.prototype.map\<close>: the callback is applied to the elements from left to
  right, each call working on the heap the call before left behind, and the results are
  put in a new array.  \<open>None\<close> stands for a thrown \<^verbatim>\<open>TypeError\<close> (the receiver is not
  an array) and for values the model does not cover.
\<close>

fun map_elements ::
  "(jsval \<Rightarrow> heap \<Rightarrow> (jsval \<times> heap) option) \<Rightarrow> jsval list \<Rightarrow> heap \<Rightarrow>
   (jsval list \<times> heap) option" where
  "map_elements f [] h = Some ([], h)"
| "map_elements f (v # vs) h =
     (case f v h of
        None \<Rightarrow> None
      | Some (w, h1) \<Rightarrow>
          (case map_elements f vs h1 of
             None \<Rightarrow> None
           | Some (ws, h2) \<Rightarrow> Some (w # ws, h2)))"

definition array_map ::
  "(jsval \<Rightarrow> heap \<Rightarrow> (jsval \<times> heap) option) \<Rightarrow> jsval \<Rightarrow> heap \<Rightarrow> (jsval \<times> heap) option"
  where
  "array_map f v h =
     (case deref h v of
        Some (Array vs) \<Rightarrow>
          (case map_elements f vs h of
             None \<Rightarrow> None
           | Some (ws, h') \<Rightarrow> Some (alloc (Array ws) h'))
      | _ \<Rightarrow> None)"

text \<open>
  The innermost callback \<^verbatim>\<open>([x, y]) => [..., ...]\<close> (lines 154 to 157 and 178 to
  181).  Destructuring reads the elements 0 and 1 of the vertex, \<^verbatim>\<open>undefined\<close> where
  the array is shorter, and the arithmetic turns \<^verbatim>\<open>undefined\<close> into \<open>NaN\<close>.  The
  coercion of strings and objects to numbers is not modelled (\<open>None\<close>).  The arithmetic
  \<open>g\<close> is the one of the value-level transform.
\<close>

definition element :: "jsval list \<Rightarrow> nat \<Rightarrow> jsval" where
  "element vs i = (if i < length vs then vs ! i else Undefined)"

definition to_number :: "jsval \<Rightarrow> jsnum option" where
  "to_number v = (case v of Number n \<Rightarrow> Some n | Undefined \<Rightarrow> Some NaN | _ \<Rightarrow> None)"

definition point_map :: "(vertex \<Rightarrow> vertex) \<Rightarrow> jsval \<Rightarrow> heap \<Rightarrow> (jsval \<times> heap) option" where
  "point_map g v h =
     (case deref h v of
        Some (Array es) \<Rightarrow>
          (case to_number (element es 0) of
             None \<Rightarrow> None
           | Some x \<Rightarrow>
               (case to_number (element es 1) of
                  None \<Rightarrow> None
                | Some y \<Rightarrow>
                    Some (alloc (Array [Number (fst (g (x, y))), Number (snd (g (x, y)))]) h)))
      | _ \<Rightarrow> None)"

text \<open>
  The callback on a contour (lines 150 to 160 and 174 to 184): an object literal with
  the spread of the contour and one more property, which is assigned to the key if the
  contour has it already and added at the end otherwise.  The object literal is a new
  object; the contour is only read.
\<close>

definition get_prop :: "(string \<times> jsval) list \<Rightarrow> string \<Rightarrow> jsval" where
  "get_prop ps k = (case map_of ps k of Some v \<Rightarrow> v | None \<Rightarrow> Undefined)"

fun set_prop :: "string \<Rightarrow> jsval \<Rightarrow> (string \<times> jsval) list \<Rightarrow> (string \<times> jsval) list" where
  "set_prop k v [] = [(k, v)]"
| "set_prop k v (p # ps) = (if fst p = k then (k, v) # ps else p # set_prop k v ps)"

definition contour_map ::
  "string \<Rightarrow> (vertex \<Rightarrow> vertex) \<Rightarrow> jsval \<Rightarrow> heap \<Rightarrow> (jsval \<times> heap) option" where
  "contour_map key g v h =
     (case deref h v of
        Some (Object ps) \<Rightarrow>
          (case array_map (array_map (array_map (point_map g))) (get_prop ps ''coordinates'') h of
             None \<Rightarrow> None
           | Some (mp, h') \<Rightarrow> Some (alloc (Object (set_prop key mp ps)) h'))
      | _ \<Rightarrow> None)"

text \<open>The two transforms; \<open>cref\<close> is the reference to the array of contours.\<close>

definition transformToGeo_heap ::
  "config \<Rightarrow> jsval \<Rightarrow> bounds \<Rightarrow> heap \<Rightarrow> (jsval \<times> heap) option" where
  "transformToGeo_heap cfg cref b h =
     (let cellWidth = cell_size (east b) (west b) (gridWidth cfg);
          cellHeight = cell_size (north b) (south b) (gridHeight cfg)
      in array_map (contour_map ''coordinates'' (geo_vertex b cellWidth cellHeight)) cref h)"

definition transformToPixels_heap ::
  "config \<Rightarrow> jsval \<Rightarrow> pixelBounds \<Rightarrow> heap \<Rightarrow> (jsval \<times> heap) option" where
  "transformToPixels_heap cfg cref pb h =
     (let scaleX = js_div (Num (pwidth pb)) (Num (real (gridWidth cfg)));
          scaleY = js_div (Num (pheight pb)) (Num (real (gridHeight cfg)))
      in array_map (contour_map ''pixelCoordinates'' (pixel_vertex cfg pb scaleX scaleY))
           cref h)"


section \<open>The module and its surroundings\<close>

text \<open>
  What a call of \<open>process\<close> can read or change besides its arguments: the configuration
  object of the module, which \<open>updateConfig\<close> assigns to; the clock, a sequence of
  readings of which \<^verbatim>\<open>performance.now()\<close> takes the next one; and the console.  The
  module has no other variable outside its functions (lines 9 to 38).  A line of the
  console is kept as the values the message is built from.
\<close>

datatype log_line = LogProcessing nat | LogNoEnergy | LogGenerated nat | LogCompleted jsnum

record world =
  config_obj :: config
  clock :: "nat \<Rightarrow> real"
  readings :: nat
  console :: "log_line list"

definition console_log :: "log_line \<Rightarrow> world \<Rightarrow> world" where
  "console_log l w = w\<lparr>console := console w @ [l]\<rparr>"

definition performance_now :: "world \<Rightarrow> jsnum \<times> world" where
  "performance_now w = (Num (clock w (readings w)), w\<lparr>readings := readings w + 1\<rparr>)"

text \<open>
  \<open>getConfig\<close> and \<open>updateConfig\<close> (lines 225 to 235).  The argument of \<open>updateConfig\<close> is
  a partial configuration; \<^verbatim>\<open>Object.assign\<close> overwrites the properties it has.
\<close>

record config_patch =
  new_gridWidth :: "nat option"
  new_gridHeight :: "nat option"
  new_contourLevels :: "nat option"
  new_typeParams :: "(string \<times> type_params) list option"
  new_defaultParams :: "type_params option"
  new_cutoffMultiplier :: "real option"

definition assign_config :: "config \<Rightarrow> config_patch \<Rightarrow> config" where
  "assign_config cfg p =
     \<lparr>gridWidth = (case new_gridWidth p of None \<Rightarrow> gridWidth cfg | Some v \<Rightarrow> v),
      gridHeight = (case new_gridHeight p of None \<Rightarrow> gridHeight cfg | Some v \<Rightarrow> v),
      contourLevels = (case new_contourLevels p of None \<Rightarrow> contourLevels cfg | Some v \<Rightarrow> v),
      typeParams = (case new_typeParams p of None \<Rightarrow> typeParams cfg | Some v \<Rightarrow> v),
      defaultParams = (case new_defaultParams p of None \<Rightarrow> defaultParams cfg | Some v \<Rightarrow> v),
      cutoffMultiplier =
        (case new_cutoffMultiplier p of None \<Rightarrow> cutoffMultiplier cfg | Some v \<Rightarrow> v)\<rparr>"

definition getConfig_in :: "world \<Rightarrow> config \<times> world" where
  "getConfig_in w = (config_obj w, w)"

definition updateConfig_in :: "config_patch \<Rightarrow> world \<Rightarrow> world" where
  "updateConfig_in newConfig w = w\<lparr>config_obj := assign_config (config_obj w) newConfig\<rparr>"

text \<open>
  \<open>generateContours\<close> with its message (lines 110 to 113 and 135): the early return
  for a field without energy prints one line, the normal return the other.
\<close>

definition generateContours_in ::
  "(nat \<Rightarrow> nat \<Rightarrow> jsnum list \<Rightarrow> jsnum \<Rightarrow> multipolygon) \<Rightarrow> jsnum list \<Rightarrow> options \<Rightarrow> world \<Rightarrow>
   contour list \<times> world" where
  "generateContours_in isolines fld opts w =
     (let cs = generateContours (config_obj w) isolines fld opts;
          line = (if js_lt (snd (field_min_max fld)) (Num (1 / 100)) then LogNoEnergy
                  else LogGenerated (length cs))
      in (cs, console_log line w))"

text \<open>
  \<open>process\<close> (lines 194 to 220) statement by statement, every function it calls reading
  the configuration of the world it is called in.
\<close>

definition process_in ::
  "(nat \<Rightarrow> nat \<Rightarrow> jsnum list \<Rightarrow> jsnum \<Rightarrow> multipolygon) \<Rightarrow> resource list \<Rightarrow> bounds \<Rightarrow>
   pixelBounds \<Rightarrow> world \<Rightarrow> (result \<times> world) option" where
  "process_in isolines resources b pb w =
     (let w1 = console_log (LogProcessing (length resources)) w;
          (startTime, w2) = performance_now w1
      in case generateScalarField (config_obj w2) resources b of
           None \<Rightarrow> None
         | Some fld \<Rightarrow>
             let (cs, w3) = generateContours_in isolines fld no_options w2;
                 pixelContours = transformToPixels (config_obj w3) cs pb;
                 (endTime, w4) = performance_now w3;
                 elapsed = js_sub endTime startTime;
                 w5 = console_log (LogCompleted elapsed) w4
             in Some (\<lparr>contours = pixelContours, field = fld,
                       stats = \<lparr>resourceCount = length resources,
                                 contourCount = length cs,
                                 processingTime = elapsed\<rparr>\<rparr>, w5))"

section \<open>Auxiliary notions for the proofs\<close>

text \<open>
  None of the definitions of this section is part of the program.
\<close>

subsection \<open>What the loops compute\<close>

text \<open>
  The integers a loop variable runs through when the loop starts at \<open>lo\<close> and ends at
  \<open>hi\<close>, for the bounds the program computes: a lower bound is a non-negative integer,
  \<open>+Infinity\<close> or NaN (\<open>lo_bound\<close>), an upper bound an integer below the grid size,
  \<open>-Infinity\<close> or NaN (\<open>hi_bound\<close>).
\<close>

definition idx_range :: "jsnum \<Rightarrow> jsnum \<Rightarrow> int list" where
  "idx_range lo hi = (case (lo, hi) of (Num a, Num b) \<Rightarrow> [\<lceil>a\<rceil>..\<lfloor>b\<rfloor>] | _ \<Rightarrow> [])"

definition lo_bound :: "jsnum \<Rightarrow> bool" where
  "lo_bound v = (case v of Num a \<Rightarrow> a = of_int \<lfloor>a\<rfloor> \<and> 0 \<le> a | NInf \<Rightarrow> False | _ \<Rightarrow> True)"

definition hi_bound :: "nat \<Rightarrow> jsnum \<Rightarrow> bool" where
  "hi_bound n v =
     (case v of Num a \<Rightarrow> a = of_int \<lfloor>a\<rfloor> \<and> a \<le> real n - 1 | PInf \<Rightarrow> False | _ \<Rightarrow> True)"

text \<open>
  The array index of the cell \<open>(xi, yi)\<close>, the energy one resource adds to it (the
  expression of lines 72 to 82 at the loop variables \<open>xi\<close> and \<open>yi\<close>) and the update of
  that one cell.
\<close>

definition cell_key :: "nat \<Rightarrow> int \<Rightarrow> int \<Rightarrow> nat" where
  "cell_key w yi xi = nat (yi * int w + xi)"

definition cell_energy ::
  "bounds \<Rightarrow> resource \<Rightarrow> jsnum \<Rightarrow> jsnum \<Rightarrow> jsnum \<Rightarrow> jsnum \<Rightarrow> int \<Rightarrow> int \<Rightarrow> jsnum" where
  "cell_energy b r cellWidth cellHeight amplitude' sigmaSq xi yi =
     (let cellLat = js_add (Num (south b))
                      (js_mul (js_add (Num (of_int yi)) (Num (1 / 2))) cellHeight);
          dLat = js_sub cellLat (Num (lat r));
          cellLng = js_add (Num (west b))
                      (js_mul (js_add (Num (of_int xi)) (Num (1 / 2))) cellWidth);
          dLng = js_sub cellLng (Num (lng r));
          distSq = js_add (js_mul dLat dLat) (js_mul dLng dLng)
      in js_mul amplitude' (js_exp (js_div (js_neg distSq) (js_mul (Num 2) sigmaSq))))"

definition add_at :: "nat \<Rightarrow> (int \<Rightarrow> int \<Rightarrow> jsnum) \<Rightarrow> int \<Rightarrow> int \<Rightarrow> jsnum list \<Rightarrow> jsnum list" where
  "add_at w e yi xi fld =
     fld[cell_key w yi xi := js_add (fld ! cell_key w yi xi) (e xi yi)]"

text \<open>
  The cell range of one resource, its energy at a cell, and the value of a cell after
  all resources: each resource whose range contains the cell adds its energy.
\<close>

definition cutoff_of :: "config \<Rightarrow> resource \<Rightarrow> jsnum" where
  "cutoff_of cfg r = js_mul (Num (cutoffMultiplier cfg)) (sigma_of (lookup_params cfg r))"

definition x_cells :: "config \<Rightarrow> bounds \<Rightarrow> resource \<Rightarrow> jsnum \<Rightarrow> int list" where
  "x_cells cfg b r cellWidth =
     idx_range (range_lo (Num (lng r)) (cutoff_of cfg r) (Num (west b)) cellWidth)
       (range_hi (gridWidth cfg) (Num (lng r)) (cutoff_of cfg r) (Num (west b)) cellWidth)"

definition y_cells :: "config \<Rightarrow> bounds \<Rightarrow> resource \<Rightarrow> jsnum \<Rightarrow> int list" where
  "y_cells cfg b r cellHeight =
     idx_range (range_lo (Num (lat r)) (cutoff_of cfg r) (Num (south b)) cellHeight)
       (range_hi (gridHeight cfg) (Num (lat r)) (cutoff_of cfg r) (Num (south b)) cellHeight)"

definition in_cell_range ::
  "config \<Rightarrow> bounds \<Rightarrow> resource \<Rightarrow> jsnum \<Rightarrow> jsnum \<Rightarrow> nat \<Rightarrow> nat \<Rightarrow> bool" where
  "in_cell_range cfg b r cellWidth cellHeight x y =
     (int x \<in> set (x_cells cfg b r cellWidth) \<and> int y \<in> set (y_cells cfg b r cellHeight))"

definition resource_energy ::
  "config \<Rightarrow> bounds \<Rightarrow> resource \<Rightarrow> jsnum \<Rightarrow> jsnum \<Rightarrow> int \<Rightarrow> int \<Rightarrow> jsnum" where
  "resource_energy cfg b r cellWidth cellHeight =
     cell_energy b r cellWidth cellHeight (amplitude_of (lookup_params cfg r))
       (js_mul (sigma_of (lookup_params cfg r)) (sigma_of (lookup_params cfg r)))"

definition cell_total ::
  "config \<Rightarrow> bounds \<Rightarrow> jsnum \<Rightarrow> jsnum \<Rightarrow> resource list \<Rightarrow> nat \<Rightarrow> nat \<Rightarrow> jsnum \<Rightarrow> jsnum" where
  "cell_total cfg b cellWidth cellHeight rs x y v0 =
     fold (\<lambda>r v. if in_cell_range cfg b r cellWidth cellHeight x y
                  then js_add v (resource_energy cfg b r cellWidth cellHeight (int x) (int y))
                  else v) rs v0"

subsection \<open>The result in real arithmetic\<close>

text \<open>
  A configuration is valid when the grid is not empty, the cutoff multiplier is not
  negative and every profile has a positive sigma and amplitude; \<open>CONFIG\<close> is valid.
\<close>

definition profiles_positive :: "config \<Rightarrow> bool" where
  "profiles_positive cfg =
     list_all (\<lambda>p. 0 < sigma p \<and> 0 < amplitude p)
       (defaultParams cfg # map snd (typeParams cfg))"

definition valid_config :: "config \<Rightarrow> bool" where
  "valid_config cfg =
     (0 < gridWidth cfg \<and> 0 < gridHeight cfg \<and> 0 \<le> cutoffMultiplier cfg \<and>
      profiles_positive cfg)"

text \<open>
  The specification's words: the profile of a point (the one of its type, the default
  profile for any other type; \<open>has_profile\<close> says that the program's lookup finds this
  profile, which it does unless the type is an inherited name), the cell sizes, the centre of a cell, the distance from a
  cell centre to a point in degree space, the Gaussian contribution at a distance, the
  cutoff radius, the cells inside the cutoff cell range of a point (the rectangle of
  lines 65 to 68, in real arithmetic), and the sum of the contributions of the points
  whose range covers a cell.
\<close>

definition params_of :: "config \<Rightarrow> resource \<Rightarrow> type_params" where
  "params_of cfg r =
     (case map_of (typeParams cfg) (rtype r) of
        Some p \<Rightarrow> p
      | None \<Rightarrow> defaultParams cfg)"

definition has_profile :: "config \<Rightarrow> resource \<Rightarrow> bool" where
  "has_profile cfg r = (lookup_params cfg r = Profile (params_of cfg r))"

definition cellWidth_of :: "config \<Rightarrow> bounds \<Rightarrow> real" where
  "cellWidth_of cfg b = (east b - west b) / real (gridWidth cfg)"

definition cellHeight_of :: "config \<Rightarrow> bounds \<Rightarrow> real" where
  "cellHeight_of cfg b = (north b - south b) / real (gridHeight cfg)"

definition center_lng :: "config \<Rightarrow> bounds \<Rightarrow> nat \<Rightarrow> real" where
  "center_lng cfg b x = west b + (real x + 1 / 2) * cellWidth_of cfg b"

definition center_lat :: "config \<Rightarrow> bounds \<Rightarrow> nat \<Rightarrow> real" where
  "center_lat cfg b y = south b + (real y + 1 / 2) * cellHeight_of cfg b"

definition center_distance :: "config \<Rightarrow> bounds \<Rightarrow> resource \<Rightarrow> nat \<Rightarrow> nat \<Rightarrow> real" where
  "center_distance cfg b r x y =
     sqrt ((center_lng cfg b x - lng r)\<^sup>2 + (center_lat cfg b y - lat r)\<^sup>2)"

definition gaussian :: "type_params \<Rightarrow> real \<Rightarrow> real" where
  "gaussian p d = amplitude p * exp (- d\<^sup>2 / (2 * (sigma p)\<^sup>2))"

definition cutoff_radius :: "config \<Rightarrow> resource \<Rightarrow> real" where
  "cutoff_radius cfg r = cutoffMultiplier cfg * sigma (params_of cfg r)"

definition cutoff_covers :: "config \<Rightarrow> bounds \<Rightarrow> resource \<Rightarrow> nat \<Rightarrow> nat \<Rightarrow> bool" where
  "cutoff_covers cfg b r x y =
     (max 0 \<lfloor>(lng r - cutoff_radius cfg r - west b) / cellWidth_of cfg b\<rfloor> \<le> int x \<and>
      int x \<le> min (int (gridWidth cfg) - 1)
                \<lceil>(lng r + cutoff_radius cfg r - west b) / cellWidth_of cfg b\<rceil> \<and>
      max 0 \<lfloor>(lat r - cutoff_radius cfg r - south b) / cellHeight_of cfg b\<rfloor> \<le> int y \<and>
      int y \<le> min (int (gridHeight cfg) - 1)
                \<lceil>(lat r + cutoff_radius cfg r - south b) / cellHeight_of cfg b\<rceil>)"

definition field_sum :: "config \<Rightarrow> bounds \<Rightarrow> resource list \<Rightarrow> nat \<Rightarrow> nat \<Rightarrow> real" where
  "field_sum cfg b rs x y =
     sum_list (map (\<lambda>r. gaussian (params_of cfg r) (center_distance cfg b r x y))
                 (filter (\<lambda>r. cutoff_covers cfg b r x y) rs))"

text \<open>The value of the cell \<open>(x, y)\<close> in the result of \<open>generateScalarField\<close>.\<close>

definition cell_value :: "config \<Rightarrow> jsnum list option \<Rightarrow> nat \<Rightarrow> nat \<Rightarrow> jsnum option" where
  "cell_value cfg res x y =
     (case res of
        None \<Rightarrow> None
      | Some fld \<Rightarrow>
          if y * gridWidth cfg + x < length fld then Some (fld ! (y * gridWidth cfg + x))
          else None)"

subsection \<open>Concrete inputs\<close>

text \<open>
  A window of 0.15 by 0.15 degrees (cells of 0.001 degrees), a hospital at the centre
  of the cell \<open>(75, 75)\<close> of that window, two points at the same place whose types are
  not keys of \<open>typeParams\<close> (an inherited name and an ordinary one), a window collapsed
  to a single point, and a hospital at that point.
\<close>

definition taipei_window :: bounds where
  "taipei_window = \<lparr>south = 25, west = 1215 / 10, north = 2515 / 100, east = 12165 / 100\<rparr>"

definition central_hospital :: resource where
  "central_hospital = \<lparr>rtype = ''hospital'', lat = 250755 / 10000, lng = 1215755 / 10000\<rparr>"

definition inherited_type_point :: resource where
  "inherited_type_point =
     \<lparr>rtype = ''constructor'', lat = 250755 / 10000, lng = 1215755 / 10000\<rparr>"

definition unknown_type_point :: resource where
  "unknown_type_point = \<lparr>rtype = ''school'', lat = 250755 / 10000, lng = 1215755 / 10000\<rparr>"

definition point_window :: bounds where
  "point_window = \<lparr>south = 25, west = 1215 / 10, north = 25, east = 1215 / 10\<rparr>"

subsection \<open>Thresholds\<close>

text \<open>
  The \<open>i\<close>-th threshold \<open>min + step * i\<close> with \<open>step = (max - min) / (levels + 1)\<close>, and its
  normalised value.
\<close>

definition threshold_at :: "real \<Rightarrow> real \<Rightarrow> nat \<Rightarrow> nat \<Rightarrow> real" where
  "threshold_at mn mx numLevels i = mn + (mx - mn) / (real numLevels + 1) * real i"

definition normalized_at :: "real \<Rightarrow> real \<Rightarrow> nat \<Rightarrow> nat \<Rightarrow> real" where
  "normalized_at mn mx numLevels i = (threshold_at mn mx numLevels i - mn) / (mx - mn)"

text \<open>A ring generator that finds no ring, for concrete instances.\<close>

definition no_isolines :: "nat \<Rightarrow> nat \<Rightarrow> jsnum list \<Rightarrow> jsnum \<Rightarrow> multipolygon" where
  "no_isolines width height fld threshold = []"

definition corner_hospital :: resource where
  "corner_hospital = \<lparr>rtype = ''hospital'', lat = 25, lng = 1215 / 10\<rparr>"

subsection \<open>Vertices of a contour list\<close>

text \<open>
  A vertex is addressed by the indices of its contour, polygon, ring and position in
  the ring.  \<open>grid_vertex\<close> reads it from \<open>coordinates\<close>, \<open>pixel_vertex_of\<close> from
  \<open>pixelCoordinates\<close>; \<open>shape\<close> is the number of vertices of every ring of every polygon.
\<close>

type_synonym vertex_pos = "nat \<times> nat \<times> nat \<times> nat"

definition vertex_at :: "multipolygon \<Rightarrow> nat \<Rightarrow> nat \<Rightarrow> nat \<Rightarrow> vertex option" where
  "vertex_at mp j k l =
     (if j < length mp \<and> k < length (mp ! j) \<and> l < length (mp ! j ! k)
      then Some (mp ! j ! k ! l) else None)"

fun grid_vertex :: "contour list \<Rightarrow> vertex_pos \<Rightarrow> vertex option" where
  "grid_vertex cs (i, j, k, l) =
     (if i < length cs then vertex_at (coordinates (cs ! i)) j k l else None)"

fun pixel_vertex_of :: "contour list \<Rightarrow> vertex_pos \<Rightarrow> vertex option" where
  "pixel_vertex_of cs (i, j, k, l) =
     (if i < length cs
      then (case pixelCoordinates (cs ! i) of
              None \<Rightarrow> None
            | Some pc \<Rightarrow> vertex_at pc j k l)
      else None)"

definition shape :: "multipolygon \<Rightarrow> nat list list" where
  "shape mp = map (map length) mp"

definition two_vertex_contour :: contour where
  "two_vertex_contour =
     \<lparr>cvalue = Num (1 / 2), coordinates = [[[(Num 10, Num 0), (Num 10, Num 150)]]],
      normalizedValue = Some (Num (1 / 2)), pixelCoordinates = None\<rparr>"

definition canvas :: pixelBounds where
  "canvas = \<lparr>pleft = 0, ptop = 0, pwidth = 300, pheight = 600\<rparr>"

definition three_levels :: options where
  "three_levels = \<lparr>owidth = None, oheight = None, olevels = Some 3\<rparr>"

subsection \<open>Reading a value off the heap\<close>

text \<open>
  The contour list a reference stands for in a heap, if it stands for one: an array of
  objects with a number \<open>value\<close>, nested arrays of two-number vertices as \<open>coordinates\<close>,
  and optionally \<open>normalizedValue\<close> and \<open>pixelCoordinates\<close>.
\<close>

definition read_array :: "(heap \<Rightarrow> jsval \<Rightarrow> 'a option) \<Rightarrow> heap \<Rightarrow> jsval \<Rightarrow> 'a list option" where
  "read_array rd h v =
     (case deref h v of Some (Array vs) \<Rightarrow> those (map (rd h) vs) | _ \<Rightarrow> None)"

definition read_vertex :: "heap \<Rightarrow> jsval \<Rightarrow> vertex option" where
  "read_vertex h v =
     (case deref h v of Some (Array [Number x, Number y]) \<Rightarrow> Some (x, y) | _ \<Rightarrow> None)"

definition read_multipolygon :: "heap \<Rightarrow> jsval \<Rightarrow> multipolygon option" where
  "read_multipolygon = read_array (read_array (read_array read_vertex))"

definition read_optional :: "(jsval \<Rightarrow> 'a option) \<Rightarrow> jsval option \<Rightarrow> 'a option option" where
  "read_optional rd p = (case p of None \<Rightarrow> Some None | Some v \<Rightarrow> map_option Some (rd v))"

definition read_number :: "jsval \<Rightarrow> jsnum option" where
  "read_number v = (case v of Number n \<Rightarrow> Some n | _ \<Rightarrow> None)"

definition read_contour :: "heap \<Rightarrow> jsval \<Rightarrow> contour option" where
  "read_contour h v =
     (case deref h v of
        Some (Object ps) \<Rightarrow>
          (case read_number (get_prop ps ''value'') of
             None \<Rightarrow> None
           | Some val \<Rightarrow>
               (case read_multipolygon h (get_prop ps ''coordinates'') of
                  None \<Rightarrow> None
                | Some mp \<Rightarrow>
                    (case read_optional read_number (map_of ps ''normalizedValue'') of
                       None \<Rightarrow> None
                     | Some nv \<Rightarrow>
                         (case read_optional (read_multipolygon h)
                                 (map_of ps ''pixelCoordinates'') of
                            None \<Rightarrow> None
                          | Some pc \<Rightarrow>
                              Some \<lparr>cvalue = val, coordinates = mp, normalizedValue = nv,
                                    pixelCoordinates = pc\<rparr>))))
      | _ \<Rightarrow> None)"

definition read_contours :: "heap \<Rightarrow> jsval \<Rightarrow> contour list option" where
  "read_contours = read_array read_contour"

text \<open>
  A reader is stable if what it reads stays the same when the heap grows; a heap
  function implements a function on values if, on whatever the reader accepts, it
  returns, only extends the heap, and its result reads as the value of the function.
\<close>

definition stable :: "(heap \<Rightarrow> jsval \<Rightarrow> 'a option) \<Rightarrow> bool" where
  "stable rd = (\<forall>h ext v x. rd h v = Some x \<longrightarrow> rd (h @ ext) v = Some x)"

definition implements ::
  "(jsval \<Rightarrow> heap \<Rightarrow> (jsval \<times> heap) option) \<Rightarrow> ('a \<Rightarrow> 'b) \<Rightarrow>
   (heap \<Rightarrow> jsval \<Rightarrow> 'a option) \<Rightarrow> (heap \<Rightarrow> jsval \<Rightarrow> 'b option) \<Rightarrow> bool" where
  "implements f g rdA rdB =
     (\<forall>h v x. rdA h v = Some x \<longrightarrow>
        (\<exists>w ext. f v h = Some (w, h @ ext) \<and> rdB (h @ ext) w = Some (g x)))"

text \<open>A heap with one contour of one polygon, one ring and two vertices, at address 6.\<close>

definition contour_heap :: heap where
  "contour_heap =
     [Array [Number (Num 10), Number (Num 0)],
      Array [Number (Num 10), Number (Num 150)],
      Array [Ref 0, Ref 1],
      Array [Ref 2],
      Array [Ref 3],
      Object [(''type'', Str ''MultiPolygon''), (''value'', Number (Num (1 / 2))),
              (''coordinates'', Ref 4), (''normalizedValue'', Number (Num (1 / 2)))],
      Array [Ref 5]]"

subsection \<open>Two worlds with the shipped configuration\<close>

definition quiet_world :: world where
  "quiet_world = \<lparr>config_obj = CONFIG, clock = (\<lambda>n. real n), readings = 0, console = []\<rparr>"

definition busy_world :: world where
  "busy_world =
     \<lparr>config_obj = CONFIG, clock = (\<lambda>n. 1000 + 3 * real n), readings = 5,
      console = [LogNoEnergy]\<rparr>"

section \<open>The loops of generateScalarField\<close>

lemma for_loop_stop: "\<not> js_le i hi \<Longrightarrow> for_loop i hi body s = Some s"
  by (subst for_loop.simps) simp

lemma for_loop_upto:
  assumes "\<And>i s. a \<le> i \<Longrightarrow> i \<le> b \<Longrightarrow> body (Num (of_int i)) s = Some (g i s)"
  shows "for_loop (Num (of_int a)) (Num (of_int b)) body s = Some (fold g [a..b] s)"
  using assms
proof (induction "nat (b - a + 1)" arbitrary: a s)
  case 0
  then have "b < a" by simp
  then show ?case by (simp add: for_loop_stop)
next
  case (Suc n)
  then have ab: "a \<le> b" by simp
  have n: "n = nat (b - (a + 1) + 1)" using Suc.hyps(2) by simp
  have step: "for_loop (Num (of_int (a + 1))) (Num (of_int b)) body (g a s)
      = Some (fold g [a + 1..b] (g a s))"
    by (rule Suc.hyps(1)[OF n]) (simp add: Suc.prems)
  have "for_loop (Num (of_int a)) (Num (of_int b)) body s
      = for_loop (js_add (Num (of_int a)) (Num 1)) (Num (of_int b)) body (g a s)"
    by (subst for_loop.simps) (simp add: ab Suc.prems)
  also have "js_add (Num (of_int a)) (Num 1) = Num (of_int (a + 1))" by simp
  finally show ?case using step ab by (simp add: upto_rec1)
qed

lemma floor_lo_bound: "lo_bound (js_max (Num 0) (js_floor q))"
  by (cases q) (auto simp: lo_bound_def)

lemma ceil_hi_bound: "hi_bound n (js_min (js_sub (Num (real n)) (Num 1)) (js_ceil q))"
  by (cases q) (auto simp: hi_bound_def js_sub_def)

lemma range_lo_bound: "lo_bound (range_lo pos c origin cs)"
  by (simp add: range_lo_def floor_lo_bound)

lemma range_hi_bound: "hi_bound n (range_hi n pos c origin cs)"
  by (simp add: range_hi_def ceil_hi_bound)

lemma idx_range_set:
  assumes "lo_bound lo" "hi_bound n hi" "i \<in> set (idx_range lo hi)"
  shows "0 \<le> i \<and> i < int n"
  using assms
  by (cases lo; cases hi) (auto simp: idx_range_def lo_bound_def hi_bound_def, linarith+)

lemma idx_range_distinct: "distinct (idx_range lo hi)"
  by (cases lo; cases hi) (auto simp: idx_range_def)

lemma for_loop_range:
  assumes lo: "lo_bound lo" and hi: "hi_bound n hi"
    and body: "\<And>i s. 0 \<le> i \<Longrightarrow> i < int n \<Longrightarrow> body (Num (of_int i)) s = Some (g i s)"
  shows "for_loop lo hi body s = Some (fold g (idx_range lo hi) s)"
proof (cases "is_finite lo \<and> is_finite hi")
  case False
  with lo hi have "\<not> js_le lo hi" "idx_range lo hi = []"
    by (cases lo; cases hi; simp add: is_finite_def lo_bound_def hi_bound_def idx_range_def)+
  then show ?thesis by (simp add: for_loop_stop)
next
  case True
  then obtain a c where ac: "lo = Num a" "hi = Num c"
    by (cases lo; cases hi) (auto simp: is_finite_def)
  with lo hi have int: "a = of_int \<lfloor>a\<rfloor>" "c = of_int \<lfloor>c\<rfloor>" and rng: "0 \<le> a" "c \<le> real n - 1"
    by (simp_all add: lo_bound_def hi_bound_def)
  have ceil: "\<lceil>a\<rceil> = \<lfloor>a\<rfloor>" by (subst int(1)) simp
  have "for_loop (Num (of_int \<lfloor>a\<rfloor>)) (Num (of_int \<lfloor>c\<rfloor>)) body s
      = Some (fold g [\<lfloor>a\<rfloor>..\<lfloor>c\<rfloor>] s)"
  proof (rule for_loop_upto)
    fix i s' assume "\<lfloor>a\<rfloor> \<le> i" "i \<le> \<lfloor>c\<rfloor>"
    with rng have "0 \<le> i" "i < int n" by linarith+
    then show "body (Num (of_int i)) s' = Some (g i s')" by (rule body)
  qed
  then show ?thesis using ac int ceil by (simp add: idx_range_def)
qed

lemma f32_add_int:
  assumes k: "0 \<le> k"
  shows "f32_add fld (Num (of_int k)) e = fld[nat k := js_add (fld ! nat k) e]"
proof (cases "nat k < length fld")
  case True
  with k have "real_of_int k < real (length fld)" by linarith
  with k show ?thesis by (simp add: f32_add_def)
next
  case False
  then have "length fld \<le> nat k" by simp
  moreover from False k have "\<not> real_of_int k < real (length fld)" by linarith
  ultimately show ?thesis by (simp add: f32_add_def list_update_beyond)
qed

lemma gsf_cell_eq:
  assumes "0 \<le> xi" "0 \<le> yi"
  shows "gsf_cell cfg b r cw amp sSq
           (let cellLat = js_add (Num (south b))
                            (js_mul (js_add (Num (of_int yi)) (Num (1 / 2))) ch);
                dLat = js_sub cellLat (Num (lat r))
            in js_mul dLat dLat)
           (Num (of_int yi)) (Num (of_int xi)) fld
         = Some (add_at (gridWidth cfg) (cell_energy b r cw ch amp sSq) yi xi fld)"
proof -
  have k: "0 \<le> yi * int (gridWidth cfg) + xi" using assms by simp
  have idx: "js_add (js_mul (Num (of_int yi)) (Num (real (gridWidth cfg)))) (Num (of_int xi))
      = Num (of_int (yi * int (gridWidth cfg) + xi))" by simp
  show ?thesis
    unfolding gsf_cell_def Let_def idx f32_add_int[OF k]
    by (simp add: add_at_def cell_key_def cell_energy_def Let_def)
qed

subsection \<open>Updating a rectangle of cells\<close>

lemma cell_key_inj:
  assumes "0 \<le> xi" "xi < int w" "0 \<le> yi" "x < w"
  shows "cell_key w yi xi = cell_key w (int y) (int x) \<longleftrightarrow> yi = int y \<and> xi = int x"
proof
  assume "cell_key w yi xi = cell_key w (int y) (int x)"
  moreover have "0 \<le> yi * int w + xi" using assms by simp
  ultimately have eq: "yi * int w + xi = int y * int w + int x"
    by (simp add: cell_key_def nat_eq_iff)
  have "(yi * int w + xi) div int w = yi" "(yi * int w + xi) mod int w = xi"
    using assms by simp_all
  moreover have "(int y * int w + int x) div int w = int y"
    "(int y * int w + int x) mod int w = int x"
    using assms by simp_all
  ultimately show "yi = int y \<and> xi = int x" using eq by metis
qed simp

lemma length_add_at [simp]: "length (add_at w e yi xi fld) = length fld"
  by (simp add: add_at_def)

lemma length_fold_add_at [simp]: "length (fold (add_at w e yi) xs fld) = length fld"
  by (induction xs arbitrary: fld) simp_all

lemma length_fold_rows [simp]:
  "length (fold (\<lambda>yi. fold (add_at w e yi) xs) ys fld) = length fld"
  by (induction ys arbitrary: fld) simp_all

lemma nth_add_at:
  assumes "0 \<le> xi" "xi < int w" "0 \<le> yi" "x < w" "cell_key w (int y) (int x) < length fld"
  shows "add_at w e yi xi fld ! cell_key w (int y) (int x) =
           (if yi = int y \<and> xi = int x
            then js_add (fld ! cell_key w (int y) (int x)) (e (int x) (int y))
            else fld ! cell_key w (int y) (int x))"
  using assms cell_key_inj[OF assms(1-4), of y]
  by (auto simp: add_at_def)

lemma nth_fold_add_at:
  assumes "distinct xs" "\<forall>xi\<in>set xs. 0 \<le> xi \<and> xi < int w" "0 \<le> yi" "x < w"
    "cell_key w (int y) (int x) < length fld"
  shows "fold (add_at w e yi) xs fld ! cell_key w (int y) (int x) =
           (if yi = int y \<and> int x \<in> set xs
            then js_add (fld ! cell_key w (int y) (int x)) (e (int x) (int y))
            else fld ! cell_key w (int y) (int x))"
  using assms
proof (induction xs arbitrary: fld)
  case Nil
  then show ?case by simp
next
  case (Cons xi xs)
  have hd: "0 \<le> xi" "xi < int w" using Cons.prems(2) by simp_all
  have len: "cell_key w (int y) (int x) < length (add_at w e yi xi fld)"
    using Cons.prems(5) by simp
  have IH: "fold (add_at w e yi) xs (add_at w e yi xi fld) ! cell_key w (int y) (int x) =
      (if yi = int y \<and> int x \<in> set xs
       then js_add (add_at w e yi xi fld ! cell_key w (int y) (int x)) (e (int x) (int y))
       else add_at w e yi xi fld ! cell_key w (int y) (int x))"
    using Cons.prems by (intro Cons.IH[OF _ _ _ _ len]) simp_all
  have notin: "xi \<notin> set xs" using Cons.prems(1) by simp
  note A = nth_add_at[OF hd Cons.prems(3,4,5), of e]
  have "fold (add_at w e yi) (xi # xs) fld ! cell_key w (int y) (int x) =
      fold (add_at w e yi) xs (add_at w e yi xi fld) ! cell_key w (int y) (int x)"
    by simp
  also note IH
  also have "(if yi = int y \<and> int x \<in> set xs
       then js_add (add_at w e yi xi fld ! cell_key w (int y) (int x)) (e (int x) (int y))
       else add_at w e yi xi fld ! cell_key w (int y) (int x)) =
      (if yi = int y \<and> int x \<in> set (xi # xs)
       then js_add (fld ! cell_key w (int y) (int x)) (e (int x) (int y))
       else fld ! cell_key w (int y) (int x))"
    unfolding A using notin by auto
  finally show ?case .
qed

lemma nth_fold_rows:
  assumes "distinct xs" "\<forall>xi\<in>set xs. 0 \<le> xi \<and> xi < int w"
    "distinct ys" "\<forall>yi\<in>set ys. 0 \<le> yi" "x < w"
    "cell_key w (int y) (int x) < length fld"
  shows "fold (\<lambda>yi. fold (add_at w e yi) xs) ys fld ! cell_key w (int y) (int x) =
           (if int y \<in> set ys \<and> int x \<in> set xs
            then js_add (fld ! cell_key w (int y) (int x)) (e (int x) (int y))
            else fld ! cell_key w (int y) (int x))"
  using assms(3,4,6)
proof (induction ys arbitrary: fld)
  case Nil
  then show ?case by simp
next
  case (Cons yi ys)
  let ?row = "fold (add_at w e yi) xs fld"
  have yi: "0 \<le> yi" using Cons.prems(2) by simp
  have len: "cell_key w (int y) (int x) < length ?row" using Cons.prems(3) by simp
  have IH: "fold (\<lambda>yi. fold (add_at w e yi) xs) ys ?row ! cell_key w (int y) (int x) =
      (if int y \<in> set ys \<and> int x \<in> set xs
       then js_add (?row ! cell_key w (int y) (int x)) (e (int x) (int y))
       else ?row ! cell_key w (int y) (int x))"
    using Cons.prems by (intro Cons.IH[OF _ _ len]) simp_all
  have notin: "yi \<notin> set ys" using Cons.prems(1) by simp
  note A = nth_fold_add_at[OF assms(1,2) yi assms(5) Cons.prems(3), of e]
  have "fold (\<lambda>yi. fold (add_at w e yi) xs) (yi # ys) fld ! cell_key w (int y) (int x) =
      fold (\<lambda>yi. fold (add_at w e yi) xs) ys ?row ! cell_key w (int y) (int x)"
    by simp
  also note IH
  also have "(if int y \<in> set ys \<and> int x \<in> set xs
       then js_add (?row ! cell_key w (int y) (int x)) (e (int x) (int y))
       else ?row ! cell_key w (int y) (int x)) =
      (if int y \<in> set (yi # ys) \<and> int x \<in> set xs
       then js_add (fld ! cell_key w (int y) (int x)) (e (int x) (int y))
       else fld ! cell_key w (int y) (int x))"
    unfolding A using notin by auto
  finally show ?case .
qed

subsection \<open>One resource, all resources\<close>

lemma lookup_params_cases: "lookup_params cfg r = Inherited \<or> has_profile cfg r"
  by (simp add: has_profile_def lookup_params_def typeParams_get_def params_of_def
      split: option.splits)

lemma cutoff_of_Num:
  "has_profile cfg r \<Longrightarrow> cutoff_of cfg r = Num (cutoffMultiplier cfg * sigma (params_of cfg r))"
  by (simp add: cutoff_of_def has_profile_def)

lemma cutoff_of_Inherited: "lookup_params cfg r = Inherited \<Longrightarrow> cutoff_of cfg r = NaN"
  by (simp add: cutoff_of_def)

lemma x_cells_props:
  "distinct (x_cells cfg b r cw)"
  "\<forall>xi\<in>set (x_cells cfg b r cw). 0 \<le> xi \<and> xi < int (gridWidth cfg)"
  unfolding x_cells_def
  using idx_range_set[OF range_lo_bound range_hi_bound]
  by (simp_all add: idx_range_distinct)

lemma y_cells_props:
  "distinct (y_cells cfg b r ch)"
  "\<forall>yi\<in>set (y_cells cfg b r ch). 0 \<le> yi \<and> yi < int (gridHeight cfg)"
  unfolding y_cells_def
  using idx_range_set[OF range_lo_bound range_hi_bound]
  by (simp_all add: idx_range_distinct)

lemma gsf_row_eq:
  assumes "0 \<le> yi"
  shows "gsf_row cfg b r cw ch amp sSq
           (range_lo (Num (lng r)) (cutoff_of cfg r) (Num (west b)) cw)
           (range_hi (gridWidth cfg) (Num (lng r)) (cutoff_of cfg r) (Num (west b)) cw)
           (Num (of_int yi)) fld
         = Some (fold (add_at (gridWidth cfg) (cell_energy b r cw ch amp sSq) yi)
                   (x_cells cfg b r cw) fld)"
  unfolding gsf_row_def Let_def x_cells_def
  by (rule for_loop_range[OF range_lo_bound range_hi_bound])
     (use gsf_cell_eq[OF _ assms, unfolded Let_def] in blast)

lemma gsf_resource_eq:
  "gsf_resource cfg b cw ch r fld =
     Some (fold (\<lambda>yi. fold (add_at (gridWidth cfg) (resource_energy cfg b r cw ch) yi)
                        (x_cells cfg b r cw))
             (y_cells cfg b r ch) fld)"
proof -
  have "for_loop (range_lo (Num (lat r)) (cutoff_of cfg r) (Num (south b)) ch)
          (range_hi (gridHeight cfg) (Num (lat r)) (cutoff_of cfg r) (Num (south b)) ch)
          (gsf_row cfg b r cw ch (amplitude_of (lookup_params cfg r))
             (js_mul (sigma_of (lookup_params cfg r)) (sigma_of (lookup_params cfg r)))
             (range_lo (Num (lng r)) (cutoff_of cfg r) (Num (west b)) cw)
             (range_hi (gridWidth cfg) (Num (lng r)) (cutoff_of cfg r) (Num (west b)) cw))
          fld
      = Some (fold (\<lambda>yi. fold (add_at (gridWidth cfg) (resource_energy cfg b r cw ch) yi)
                        (x_cells cfg b r cw))
             (y_cells cfg b r ch) fld)"
    unfolding y_cells_def
    by (rule for_loop_range[OF range_lo_bound range_hi_bound])
       (simp add: gsf_row_eq resource_energy_def)
  then show ?thesis
    by (simp add: gsf_resource_def Let_def cutoff_of_def)
qed

lemma cell_key_nat: "cell_key w (int y) (int x) = y * w + x"
  by (simp add: cell_key_def nat_add_distrib nat_mult_distrib)

lemma cell_index_less: "x < w \<Longrightarrow> y < h \<Longrightarrow> y * w + x < w * h" for x y w h :: nat
proof -
  assume "x < w" "y < h"
  then have "y * w + x < y * w + w" by simp
  also have "\<dots> = (y + 1) * w" by simp
  also have "\<dots> \<le> h * w" using \<open>y < h\<close> by (intro mult_le_mono1) simp
  finally show ?thesis by (simp add: mult.commute)
qed

lemma gsf_resource_nth:
  assumes "x < gridWidth cfg" "y < gridHeight cfg"
    "length fld = gridWidth cfg * gridHeight cfg"
  shows "\<exists>fld'. gsf_resource cfg b cw ch r fld = Some fld' \<and> length fld' = length fld \<and>
           fld' ! (y * gridWidth cfg + x) =
             (if in_cell_range cfg b r cw ch x y
              then js_add (fld ! (y * gridWidth cfg + x))
                     (resource_energy cfg b r cw ch (int x) (int y))
              else fld ! (y * gridWidth cfg + x))"
proof -
  have len: "cell_key (gridWidth cfg) (int y) (int x) < length fld"
    using assms by (simp add: cell_key_nat cell_index_less)
  have ys: "\<forall>yi\<in>set (y_cells cfg b r ch). 0 \<le> yi" using y_cells_props(2) by blast
  show ?thesis
    unfolding gsf_resource_eq in_cell_range_def
    using nth_fold_rows[OF x_cells_props y_cells_props(1) ys assms(1) len,
        of "resource_energy cfg b r cw ch"]
    by (simp add: cell_key_nat conj_commute)
qed

lemma gsf_resources_nth:
  assumes "x < gridWidth cfg" "y < gridHeight cfg"
    "length fld = gridWidth cfg * gridHeight cfg"
  shows "\<exists>fld'. gsf_resources cfg b cw ch rs fld = Some fld' \<and> length fld' = length fld \<and>
           fld' ! (y * gridWidth cfg + x) =
             cell_total cfg b cw ch rs x y (fld ! (y * gridWidth cfg + x))"
  using assms(3)
proof (induction rs arbitrary: fld)
  case Nil
  then show ?case by (simp add: cell_total_def)
next
  case (Cons r rs)
  from gsf_resource_nth[OF assms(1,2) Cons.prems, of b cw ch r]
  obtain f1 where f1: "gsf_resource cfg b cw ch r fld = Some f1" "length f1 = length fld"
    "f1 ! (y * gridWidth cfg + x) =
       (if in_cell_range cfg b r cw ch x y
        then js_add (fld ! (y * gridWidth cfg + x))
               (resource_energy cfg b r cw ch (int x) (int y))
        else fld ! (y * gridWidth cfg + x))"
    by blast
  from Cons.IH[of f1] f1(2) Cons.prems
  obtain f2 where f2: "gsf_resources cfg b cw ch rs f1 = Some f2" "length f2 = length f1"
    "f2 ! (y * gridWidth cfg + x) = cell_total cfg b cw ch rs x y (f1 ! (y * gridWidth cfg + x))"
    by auto
  show ?case
    using f1 f2 by (simp add: cell_total_def)
qed

lemma generateScalarField_nth:
  assumes "x < gridWidth cfg" "y < gridHeight cfg"
  shows "\<exists>fld. generateScalarField cfg rs b = Some fld \<and>
           length fld = gridWidth cfg * gridHeight cfg \<and>
           fld ! (y * gridWidth cfg + x) =
             cell_total cfg b (cell_size (east b) (west b) (gridWidth cfg))
               (cell_size (north b) (south b) (gridHeight cfg)) rs x y (Num 0)"
  using gsf_resources_nth[OF assms, of "replicate (gridWidth cfg * gridHeight cfg) (Num 0)"
      b "cell_size (east b) (west b) (gridWidth cfg)"
      "cell_size (north b) (south b) (gridHeight cfg)" rs]
    cell_index_less[OF assms]
  by (simp add: generateScalarField_def)

subsection \<open>From JavaScript numbers to reals\<close>

lemma CONFIG_valid: "valid_config CONFIG"
  by (simp add: valid_config_def profiles_positive_def CONFIG_def)

lemma params_positive:
  assumes "profiles_positive cfg"
  shows "0 < sigma (params_of cfg r)" "0 < amplitude (params_of cfg r)"
proof -
  have "params_of cfg r \<in> set (defaultParams cfg # map snd (typeParams cfg))"
    by (auto simp: params_of_def split: option.splits dest!: map_of_SomeD intro: rev_image_eqI)
  with assms show "0 < sigma (params_of cfg r)" "0 < amplitude (params_of cfg r)"
    by (auto simp: profiles_positive_def list_all_iff)
qed

lemma cell_size_Num:
  "0 < n \<Longrightarrow> cell_size hi lo n = Num ((hi - lo) / real n)"
  by (simp add: cell_size_def js_sub_def)

lemma range_lo_Num:
  "cs \<noteq> 0 \<Longrightarrow> range_lo (Num p) (Num c) (Num o') (Num cs)
     = Num (of_int (max 0 \<lfloor>(p - c - o') / cs\<rfloor>))"
  by (simp add: range_lo_def js_sub_def max_def) linarith

lemma range_hi_Num:
  "cs \<noteq> 0 \<Longrightarrow> range_hi n (Num p) (Num c) (Num o') (Num cs)
     = Num (of_int (min (int n - 1) \<lceil>(p + c - o') / cs\<rceil>))"
  by (simp add: range_hi_def js_sub_def min_def)

lemma idx_range_ints: "idx_range (Num (of_int a)) (Num (of_int c)) = [a..c]"
  by (simp add: idx_range_def)

lemma in_cell_range_Inherited:
  "lookup_params cfg r = Inherited \<Longrightarrow> \<not> in_cell_range cfg b r cw ch x y"
  by (simp add: in_cell_range_def x_cells_def cutoff_of_Inherited range_lo_def js_sub_def
      idx_range_def)

lemma in_cell_range_covers:
  assumes "cellWidth_of cfg b \<noteq> 0" "cellHeight_of cfg b \<noteq> 0" "has_profile cfg r"
  shows "in_cell_range cfg b r (Num (cellWidth_of cfg b)) (Num (cellHeight_of cfg b)) x y
         \<longleftrightarrow> cutoff_covers cfg b r x y"
  using assms(1,2)
  by (simp add: in_cell_range_def x_cells_def y_cells_def cutoff_of_Num[OF assms(3)]
      range_lo_Num range_hi_Num idx_range_ints cutoff_covers_def cutoff_radius_def)

lemma resource_energy_Num:
  assumes "sigma (params_of cfg r) \<noteq> 0" "has_profile cfg r"
  shows "resource_energy cfg b r (Num (cellWidth_of cfg b)) (Num (cellHeight_of cfg b))
           (int x) (int y)
         = Num (gaussian (params_of cfg r) (center_distance cfg b r x y))"
  using assms
  by (simp add: resource_energy_def cell_energy_def Let_def js_sub_def gaussian_def
      center_distance_def center_lng_def center_lat_def power2_eq_square add.commute
      has_profile_def)

lemma cell_total_Num:
  assumes "profiles_positive cfg" "cellWidth_of cfg b \<noteq> 0" "cellHeight_of cfg b \<noteq> 0"
    "list_all (has_profile cfg) rs"
  shows "cell_total cfg b (Num (cellWidth_of cfg b)) (Num (cellHeight_of cfg b)) rs x y (Num v)
         = Num (v + field_sum cfg b rs x y)"
  using assms(4)
proof (induction rs arbitrary: v)
  case Nil
  show ?case by (simp add: cell_total_def field_sum_def)
next
  case (Cons r rs)
  have s: "sigma (params_of cfg r) \<noteq> 0" using params_positive(1)[OF assms(1), of r] by simp
  have p: "has_profile cfg r" "list_all (has_profile cfg) rs" using Cons.prems by simp_all
  show ?case
    using Cons.IH[OF p(2)]
    by (simp add: cell_total_def field_sum_def in_cell_range_covers[OF assms(2,3) p(1)]
        resource_energy_Num[OF s p(1)] add.assoc)
qed

lemma cell_value_field:
  assumes "valid_config cfg" "x < gridWidth cfg" "y < gridHeight cfg"
  shows "cell_value cfg (generateScalarField cfg rs b) x y =
           Some (cell_total cfg b (Num (cellWidth_of cfg b)) (Num (cellHeight_of cfg b))
                   rs x y (Num 0))"
proof -
  have pos: "0 < gridWidth cfg" "0 < gridHeight cfg"
    using assms(1) by (simp_all add: valid_config_def)
  from generateScalarField_nth[OF assms(2,3), of rs b] cell_index_less[OF assms(2,3)]
  show ?thesis
    by (auto simp: cell_value_def cell_size_Num[OF pos(1)] cell_size_Num[OF pos(2)]
        cellWidth_of_def cellHeight_of_def)
qed

lemma covers_own_cell:
  assumes "valid_config cfg" "west b < east b" "south b < north b"
    "x < gridWidth cfg" "y < gridHeight cfg"
    "lng r = center_lng cfg b x" "lat r = center_lat cfg b y"
  shows "cutoff_covers cfg b r x y"
proof -
  have cfg: "0 < gridWidth cfg" "0 < gridHeight cfg" "0 \<le> cutoffMultiplier cfg"
    "profiles_positive cfg"
    using assms(1) by (simp_all add: valid_config_def)
  define c where "c = cutoff_radius cfg r"
  have c: "0 \<le> c"
    unfolding c_def cutoff_radius_def
    using cfg(3) params_positive(1)[OF cfg(4), of r] by simp
  have axis: "max 0 \<lfloor>(p - c - o') / cs\<rfloor> \<le> int k \<and>
      int k \<le> min (int n - 1) \<lceil>(p + c - o') / cs\<rceil>"
    if "0 < cs" "k < n" "p = o' + (real k + 1 / 2) * cs" for p o' cs :: real and k n :: nat
  proof -
    have lo: "(p - c - o') / cs = real k + 1 / 2 - c / cs"
      using that(1) by (simp add: that(3) field_simps)
    have hi: "(p + c - o') / cs = real k + 1 / 2 + c / cs"
      using that(1) by (simp add: that(3) field_simps)
    have q: "0 \<le> c / cs" using c that(1) by simp
    have "\<lfloor>(p - c - o') / cs\<rfloor> \<le> int k" unfolding lo using q by linarith
    moreover have "int k \<le> \<lceil>(p + c - o') / cs\<rceil>" unfolding hi using q by linarith
    ultimately show ?thesis using that(2) by simp
  qed
  have cw: "0 < cellWidth_of cfg b" using assms(2) cfg(1) by (simp add: cellWidth_of_def)
  have ch: "0 < cellHeight_of cfg b" using assms(3) cfg(2) by (simp add: cellHeight_of_def)
  show ?thesis
    unfolding cutoff_covers_def c_def[symmetric]
    using axis[OF cw assms(4), of "lng r" "west b"] axis[OF ch assms(5), of "lat r" "south b"]
      assms(6,7)
    by (simp add: center_lng_def center_lat_def)
qed

lemma cell_value_field_sum:
  assumes "valid_config cfg" "west b \<noteq> east b" "south b \<noteq> north b"
    "x < gridWidth cfg" "y < gridHeight cfg" "list_all (has_profile cfg) rs"
  shows "cell_value cfg (generateScalarField cfg rs b) x y = Some (Num (field_sum cfg b rs x y))"
proof -
  have cfg: "0 < gridWidth cfg" "0 < gridHeight cfg" "profiles_positive cfg"
    using assms(1) by (simp_all add: valid_config_def)
  have cw: "cellWidth_of cfg b \<noteq> 0" using assms(2) cfg(1) by (simp add: cellWidth_of_def)
  have ch: "cellHeight_of cfg b \<noteq> 0" using assms(3) cfg(2) by (simp add: cellHeight_of_def)
  show ?thesis
    by (simp add: cell_value_field[OF assms(1,4,5)] cell_total_Num[OF cfg(3) cw ch assms(6)])
qed

subsection \<open>Cells outside the cutoff range\<close>

lemma axis_far_outside:
  fixes p c o' cs :: real and k n :: nat
  assumes "0 < cs" "c + 3 / 2 * cs < \<bar>o' + (real k + 1 / 2) * cs - p\<bar>"
  shows "\<not> (max 0 \<lfloor>(p - c - o') / cs\<rfloor> \<le> int k \<and>
            int k \<le> min (int n - 1) \<lceil>(p + c - o') / cs\<rceil>)"
proof (cases "p \<le> o' + (real k + 1 / 2) * cs")
  case True
  with assms(2) have "p + c - o' < (real k - 1) * cs" by (simp add: algebra_simps)
  then have "(p + c - o') / cs < real k - 1" using assms(1) by (simp add: field_simps)
  then have "\<lceil>(p + c - o') / cs\<rceil> < int k" by linarith
  then show ?thesis by simp
next
  case False
  with assms(2) have "(real k + 2) * cs < p - c - o'" by (simp add: algebra_simps)
  then have "real k + 2 < (p - c - o') / cs" using assms(1) by (simp add: field_simps)
  then have "int k < \<lfloor>(p - c - o') / cs\<rfloor>" by linarith
  then show ?thesis by simp
qed

lemma far_not_covered:
  assumes "valid_config cfg" "west b < east b" "south b < north b"
    "cutoff_radius cfg r + 3 / 2 * cellWidth_of cfg b < \<bar>center_lng cfg b x - lng r\<bar> \<or>
     cutoff_radius cfg r + 3 / 2 * cellHeight_of cfg b < \<bar>center_lat cfg b y - lat r\<bar>"
  shows "\<not> cutoff_covers cfg b r x y"
proof -
  have cfg: "0 < gridWidth cfg" "0 < gridHeight cfg"
    using assms(1) by (simp_all add: valid_config_def)
  have cw: "0 < cellWidth_of cfg b" using assms(2) cfg(1) by (simp add: cellWidth_of_def)
  have ch: "0 < cellHeight_of cfg b" using assms(3) cfg(2) by (simp add: cellHeight_of_def)
  from assms(4) show ?thesis
  proof
    assume "cutoff_radius cfg r + 3 / 2 * cellWidth_of cfg b < \<bar>center_lng cfg b x - lng r\<bar>"
    then have "\<not> (max 0 \<lfloor>(lng r - cutoff_radius cfg r - west b) / cellWidth_of cfg b\<rfloor> \<le> int x \<and>
        int x \<le> min (int (gridWidth cfg) - 1)
                  \<lceil>(lng r + cutoff_radius cfg r - west b) / cellWidth_of cfg b\<rceil>)"
      unfolding center_lng_def by (rule axis_far_outside[OF cw])
    then show ?thesis unfolding cutoff_covers_def by blast
  next
    assume "cutoff_radius cfg r + 3 / 2 * cellHeight_of cfg b < \<bar>center_lat cfg b y - lat r\<bar>"
    then have "\<not> (max 0 \<lfloor>(lat r - cutoff_radius cfg r - south b) / cellHeight_of cfg b\<rfloor> \<le> int y \<and>
        int y \<le> min (int (gridHeight cfg) - 1)
                  \<lceil>(lat r + cutoff_radius cfg r - south b) / cellHeight_of cfg b\<rceil>)"
      unfolding center_lat_def by (rule axis_far_outside[OF ch])
    then show ?thesis unfolding cutoff_covers_def by blast
  qed
qed

lemma margin_not_in_range:
  assumes "valid_config cfg" "west b < east b" "south b < north b"
    "cutoff_radius cfg r + 5 / 2 * cellWidth_of cfg b < \<bar>center_lng cfg b x - lng r\<bar> \<or>
     cutoff_radius cfg r + 5 / 2 * cellHeight_of cfg b < \<bar>center_lat cfg b y - lat r\<bar>"
  shows "\<not> in_cell_range cfg b r (Num (cellWidth_of cfg b)) (Num (cellHeight_of cfg b)) x y"
proof (cases "has_profile cfg r")
  case True
  have cfg: "0 < gridWidth cfg" "0 < gridHeight cfg"
    using assms(1) by (simp_all add: valid_config_def)
  have cw: "0 < cellWidth_of cfg b" using assms(2) cfg(1) by (simp add: cellWidth_of_def)
  have ch: "0 < cellHeight_of cfg b" using assms(3) cfg(2) by (simp add: cellHeight_of_def)
  have "cutoff_radius cfg r + 3 / 2 * cellWidth_of cfg b < \<bar>center_lng cfg b x - lng r\<bar> \<or>
      cutoff_radius cfg r + 3 / 2 * cellHeight_of cfg b < \<bar>center_lat cfg b y - lat r\<bar>"
    using assms(4) cw ch by linarith
  from far_not_covered[OF assms(1-3) this] show ?thesis
    using in_cell_range_covers[of cfg b r x y] cw ch True by simp
next
  case False
  then show ?thesis
    using lookup_params_cases[of cfg r] in_cell_range_Inherited by blast
qed

lemma cell_total_snoc_outside:
  "\<not> in_cell_range cfg b r cw ch x y \<Longrightarrow>
     cell_total cfg b cw ch (rs @ [r]) x y v = cell_total cfg b cw ch rs x y v"
  by (simp add: cell_total_def)

lemma y_cells_Inherited: "lookup_params cfg r = Inherited \<Longrightarrow> y_cells cfg b r ch = []"
  by (simp add: y_cells_def cutoff_of_Inherited range_lo_def js_sub_def idx_range_def)

lemma generateScalarField_Inherited:
  "lookup_params cfg r = Inherited \<Longrightarrow>
     generateScalarField cfg [r] b = Some (replicate (gridWidth cfg * gridHeight cfg) (Num 0))"
  by (simp add: generateScalarField_def gsf_resource_eq y_cells_Inherited)

subsection \<open>Finite and non-negative fields\<close>

lemma resource_energy_nonneg:
  assumes "profiles_positive cfg" "has_profile cfg r"
  shows "\<exists>e\<ge>0. resource_energy cfg b r (Num cw) (Num ch) xi yi = Num e"
proof -
  have "sigma (params_of cfg r) \<noteq> 0" "0 \<le> amplitude (params_of cfg r)"
    using params_positive[OF assms(1), of r] by simp_all
  then show ?thesis
    using assms(2)
    by (simp add: resource_energy_def cell_energy_def Let_def js_sub_def has_profile_def)
qed

lemma cell_total_nonneg:
  assumes "profiles_positive cfg" "0 \<le> v"
  shows "\<exists>v'\<ge>0. cell_total cfg b (Num cw) (Num ch) rs x y (Num v) = Num v'"
  using assms(2)
proof (induction rs arbitrary: v)
  case Nil
  then show ?case by (simp add: cell_total_def)
next
  case (Cons r rs)
  show ?case
  proof (cases "has_profile cfg r")
    case True
    obtain e where e: "0 \<le> e"
      "resource_energy cfg b r (Num cw) (Num ch) (int x) (int y) = Num e"
      using resource_energy_nonneg[OF assms(1) True] by blast
    have "0 \<le> v + e" using Cons.prems e(1) by simp
    from Cons.IH[OF this] Cons.IH[OF Cons.prems] show ?thesis
      by (simp add: cell_total_def e(2))
  next
    case False
    then have "\<not> in_cell_range cfg b r (Num cw) (Num ch) x y"
      using lookup_params_cases[of cfg r] in_cell_range_Inherited by blast
    with Cons.IH[OF Cons.prems] show ?thesis by (simp add: cell_total_def)
  qed
qed

lemma field_cells_nonneg:
  assumes "valid_config cfg"
  shows "\<exists>fld. generateScalarField cfg rs b = Some fld \<and>
           length fld = gridWidth cfg * gridHeight cfg \<and>
           (\<forall>v\<in>set fld. \<exists>r\<ge>0. v = Num r)"
proof -
  have cfg: "0 < gridWidth cfg" "0 < gridHeight cfg" "profiles_positive cfg"
    using assms by (simp_all add: valid_config_def)
  from generateScalarField_nth[OF cfg(1,2), of rs b]
  obtain fld where fld: "generateScalarField cfg rs b = Some fld"
    "length fld = gridWidth cfg * gridHeight cfg" by blast
  have "\<exists>r\<ge>0. fld ! k = Num r" if "k < length fld" for k
  proof -
    have x: "k mod gridWidth cfg < gridWidth cfg" using cfg(1) by simp
    have y: "k div gridWidth cfg < gridHeight cfg"
      using that fld(2) by (simp add: less_mult_imp_div_less mult.commute)
    have k: "k div gridWidth cfg * gridWidth cfg + k mod gridWidth cfg = k" by simp
    from generateScalarField_nth[OF x y, of rs b] fld(1)
    have "fld ! k = cell_total cfg b (cell_size (east b) (west b) (gridWidth cfg))
        (cell_size (north b) (south b) (gridHeight cfg)) rs
        (k mod gridWidth cfg) (k div gridWidth cfg) (Num 0)"
      by (simp add: k)
    then show ?thesis
      using cell_total_nonneg[OF cfg(3), of 0]
      by (simp add: cell_size_Num[OF cfg(1)] cell_size_Num[OF cfg(2)])
  qed
  then have "\<forall>v\<in>set fld. \<exists>r\<ge>0. v = Num r"
    by (auto simp: in_set_conv_nth)
  with fld show ?thesis by blast
qed

lemma scan_nonneg:
  assumes "\<forall>v\<in>set fld. \<exists>r\<ge>0. v = Num r" "0 \<le> a" "a \<le> c"
  shows "\<exists>mn mx. fold scan_step fld (Num a, Num c) = (Num mn, Num mx) \<and> 0 \<le> mn \<and> mn \<le> mx"
  using assms
proof (induction fld arbitrary: a c)
  case Nil
  then show ?case by simp
next
  case (Cons v fld)
  then obtain r where r: "v = Num r" "0 \<le> r" by auto
  have step: "scan_step v (Num a, Num c) = (Num (min r a), Num (max c r))"
    by (auto simp: scan_step_def r(1) Let_def min_def max_def)
  have "\<exists>mn mx. fold scan_step fld (Num (min r a), Num (max c r)) = (Num mn, Num mx) \<and>
      0 \<le> mn \<and> mn \<le> mx"
    using Cons.prems r(2) by (intro Cons.IH) auto
  then show ?case by (simp add: step)
qed

lemma field_min_max_nonneg:
  assumes "fld \<noteq> []" "\<forall>v\<in>set fld. \<exists>r\<ge>0. v = Num r"
  shows "\<exists>mn mx. field_min_max fld = (Num mn, Num mx) \<and> 0 \<le> mn \<and> mn \<le> mx"
proof -
  from assms obtain r rest where f: "fld = Num r # rest" "0 \<le> r"
    by (cases fld) auto
  have "scan_step (Num r) (PInf, NInf) = (Num r, Num r)"
    by (simp add: scan_step_def)
  then show ?thesis
    using scan_nonneg[of rest r r] assms(2) f
    by (simp add: field_min_max_def)
qed

lemma scan_replicate:
  "fold scan_step (replicate n (Num c)) (Num c, Num c) = (Num c, Num c)"
  by (induction n) (simp_all add: scan_step_def)

lemma field_min_max_replicate:
  "0 < n \<Longrightarrow> field_min_max (replicate n (Num c)) = (Num c, Num c)"
  by (cases n) (simp_all add: field_min_max_def scan_step_def scan_replicate del: fold_replicate)

lemma generateScalarField_total: "\<exists>fld. generateScalarField cfg rs b = Some fld"
proof -
  have "\<exists>fld'. gsf_resources cfg b cw ch rs fld = Some fld'" for cw ch fld
    by (induction rs arbitrary: fld) (simp_all add: gsf_resource_eq)
  then show ?thesis by (simp add: generateScalarField_def)
qed

subsection \<open>Thresholds and contours\<close>

lemma thresholds_of_Num:
  "thresholds_of (Num mn) (Num mx) n = map (\<lambda>i. Num (threshold_at mn mx n i)) [1..<n + 1]"
proof -
  have "real n + 1 \<noteq> 0" by (metis of_nat_Suc of_nat_neq_0 add.commute)
  then show ?thesis
    by (simp add: thresholds_of_def js_sub_def threshold_at_def del: upt_Suc)
qed

lemma threshold_at_less:
  assumes "mn < mx" "i < j"
  shows "threshold_at mn mx n i < threshold_at mn mx n j"
proof -
  define s where "s = (mx - mn) / (real n + 1)"
  have "0 < s" unfolding s_def using assms(1) by (simp add: add_pos_nonneg)
  then have "mn + s * real i < mn + s * real j" using assms(2) by simp
  then show ?thesis by (simp add: threshold_at_def s_def)
qed

lemma threshold_at_bounds:
  assumes "mn < mx" "1 \<le> i" "i \<le> n"
  shows "mn < threshold_at mn mx n i" "threshold_at mn mx n i < mx"
proof -
  define s where "s = (mx - mn) / (real n + 1)"
  have n1: "0 < real n + 1" by (simp add: add_pos_nonneg)
  have step: "0 < s" unfolding s_def using assms(1) n1 by simp
  have t: "threshold_at mn mx n i = mn + s * real i" by (simp add: threshold_at_def s_def)
  have "0 < s * real i" using step assms(2) by simp
  then show "mn < threshold_at mn mx n i" by (simp add: t)
  have "real i < real n + 1" using assms(3) by simp
  then have "s * real i < s * (real n + 1)"
    using step by (intro mult_strict_left_mono)
  also have "\<dots> = mx - mn" unfolding s_def using n1 by simp
  finally show "threshold_at mn mx n i < mx" by (simp add: t)
qed

lemma d3_sort_Cons: "d3_sort (v # vs) = d3_insert v (d3_sort vs)"
  by (simp add: d3_sort_def)

lemma d3_sort_ascending:
  "sorted_wrt (<) ts \<Longrightarrow> d3_sort (map Num ts) = map Num ts"
proof (induction ts)
  case Nil
  show ?case by (simp add: d3_sort_def)
next
  case (Cons t ts)
  then have "d3_sort (map Num ts) = map Num ts" by simp
  moreover have "d3_insert (Num t) (map Num ts) = Num t # map Num ts"
    using Cons.prems by (cases ts) simp_all
  ultimately show ?case by (simp add: d3_sort_Cons)
qed

lemma thresholds_ascending:
  assumes "mn < mx"
  shows "sorted_wrt (<) (map (threshold_at mn mx n) [1..<n + 1])"
proof -
  have "sorted_wrt (\<lambda>i j. threshold_at mn mx n i < threshold_at mn mx n j) [1..<n + 1]"
    by (rule sorted_wrt_mono_rel[of _ "(<)"])
       (simp_all add: threshold_at_less[OF assms] del: upt_Suc)
  then show ?thesis by (simp add: sorted_wrt_map del: upt_Suc)
qed

lemma generateContours_levels:
  assumes "field_min_max fld = (Num mn, Num mx)" "1 / 100 \<le> mx" "mn < mx"
    "n = or_default (olevels opts) (contourLevels cfg)"
  shows "generateContours cfg isolines fld opts =
     map (\<lambda>i. \<lparr>cvalue = Num (threshold_at mn mx n i),
               coordinates = isolines (or_default (owidth opts) (gridWidth cfg))
                 (or_default (oheight opts) (gridHeight cfg)) fld
                 (Num (threshold_at mn mx n i)),
               normalizedValue = Some (Num (normalized_at mn mx n i)),
               pixelCoordinates = None\<rparr>) [1..<n + 1]"
proof -
  have sort: "d3_sort (thresholds_of (Num mn) (Num mx) n)
      = map (\<lambda>i. Num (threshold_at mn mx n i)) [1..<n + 1]"
    using d3_sort_ascending[OF thresholds_ascending[OF assms(3), of n]]
    by (simp add: thresholds_of_Num comp_def del: upt_Suc)
  have d: "mx - mn \<noteq> 0" using assms(3) by simp
  show ?thesis
    using assms(2) d
    by (simp add: generateContours_def Let_def assms(1) assms(4)[symmetric] d3_contours_def
        sort comp_def js_sub_def normalized_at_def del: upt_Suc)
qed

lemma d3_insert_replicate: "d3_insert (Num c) (replicate k (Num c)) = replicate (Suc k) (Num c)"
  by (induction k) simp_all

lemma d3_sort_replicate: "d3_sort (replicate k (Num c)) = replicate k (Num c)"
  by (induction k) (simp_all add: d3_sort_def d3_insert_replicate del: replicate_Suc)

lemma thresholds_of_flat: "thresholds_of (Num c) (Num c) n = replicate n (Num c)"
proof -
  have "real n + 1 \<noteq> 0" by (metis of_nat_Suc of_nat_neq_0 add.commute)
  then show ?thesis
    by (simp add: thresholds_of_def js_sub_def map_replicate_const del: upt_Suc)
qed

lemma generateContours_flat:
  assumes "0 < m" "1 / 100 \<le> c"
  shows "map normalizedValue (generateContours cfg isolines (replicate m (Num c)) opts)
         = replicate (or_default (olevels opts) (contourLevels cfg)) (Some NaN)"
  using assms(2)
  by (simp add: generateContours_def Let_def field_min_max_replicate[OF assms(1)]
      thresholds_of_flat d3_sort_replicate d3_contours_def comp_def js_sub_def
      map_replicate_const)

lemma generateScalarField_point_window:
  "generateScalarField CONFIG [corner_hospital] point_window = Some (replicate 22500 (Num 1))"
proof -
  have W: "gridWidth CONFIG = 150" "gridHeight CONFIG = 150" by (simp_all add: CONFIG_def)
  from generateScalarField_nth[of 0 CONFIG 0 "[corner_hospital]" point_window]
  obtain fld where fld: "generateScalarField CONFIG [corner_hospital] point_window = Some fld"
    "length fld = 22500" by (auto simp: W)
  have cs: "cell_size (east point_window) (west point_window) 150 = Num 0"
    "cell_size (north point_window) (south point_window) 150 = Num 0"
    by (simp_all add: cell_size_def js_sub_def point_window_def)
  have p: "lookup_params CONFIG corner_hospital = Profile \<lparr>sigma = 6 / 1000, amplitude = 1\<rparr>"
    by (simp add: lookup_params_def typeParams_get_def CONFIG_def corner_hospital_def)
  have xs: "x_cells CONFIG point_window corner_hospital (Num 0) = [0..149]"
    unfolding x_cells_def cutoff_of_def p W
    by (simp add: point_window_def corner_hospital_def range_lo_def range_hi_def js_sub_def
        signed_inf_def idx_range_def) (simp add: CONFIG_def signed_inf_def)
  have ys: "y_cells CONFIG point_window corner_hospital (Num 0) = [0..149]"
    unfolding y_cells_def cutoff_of_def p W
    by (simp add: point_window_def corner_hospital_def range_lo_def range_hi_def js_sub_def
        signed_inf_def idx_range_def) (simp add: CONFIG_def signed_inf_def)
  have e: "resource_energy CONFIG point_window corner_hospital (Num 0) (Num 0) xi yi = Num 1"
    for xi yi
    unfolding resource_energy_def p
    by (simp add: cell_energy_def Let_def js_sub_def point_window_def corner_hospital_def)
  have "fld ! k = Num 1" if "k < 22500" for k
  proof -
    have x: "k mod 150 < gridWidth CONFIG" by (simp add: W)
    have y: "k div 150 < gridHeight CONFIG" using that by (simp add: W)
    from generateScalarField_nth[OF x y, of "[corner_hospital]" point_window] fld(1)
    show ?thesis
      using x y
      by (simp add: W cs cell_total_def in_cell_range_def xs ys e)
  qed
  then have "fld = replicate 22500 (Num 1)"
    using fld(2) by (intro nth_equalityI) simp_all
  with fld(1) show ?thesis by simp
qed

subsection \<open>Pixel transform\<close>

lemma vertex_at_map:
  "vertex_at (map (map (map f)) mp) j k l = map_option f (vertex_at mp j k l)"
  by (auto simp: vertex_at_def)

lemma pixel_vertex_of_transform:
  "pixel_vertex_of (transformToPixels cfg cs pb) p =
     map_option
       (pixel_vertex cfg pb (js_div (Num (pwidth pb)) (Num (real (gridWidth cfg))))
          (js_div (Num (pheight pb)) (Num (real (gridHeight cfg)))))
       (grid_vertex cs p)"
  by (cases p) (simp add: transformToPixels_def Let_def vertex_at_map)

lemma pixel_vertex_Num:
  assumes "0 < gridWidth cfg" "0 < gridHeight cfg"
  shows "pixel_vertex cfg pb (js_div (Num (pwidth pb)) (Num (real (gridWidth cfg))))
           (js_div (Num (pheight pb)) (Num (real (gridHeight cfg)))) (Num x, Num y)
         = (Num (pleft pb + x * (pwidth pb / real (gridWidth cfg))),
            Num (ptop pb + (real (gridHeight cfg) - y) * (pheight pb / real (gridHeight cfg))))"
  using assms by (simp add: pixel_vertex_def js_sub_def)

subsection \<open>The scan and the thresholds\<close>

lemma scan_Min_Max:
  "fold scan_step (map Num vs) (Num a, Num c)
     = (Num (Min (insert a (set vs))), Num (Max (insert c (set vs))))"
proof (induction vs arbitrary: a c)
  case Nil
  show ?case by simp
next
  case (Cons v vs)
  have step: "scan_step (Num v) (Num a, Num c) = (Num (min v a), Num (max c v))"
    by (auto simp: scan_step_def Let_def min_def max_def)
  have mn: "Min (insert (min v a) (set vs)) = Min (insert a (insert v (set vs)))"
    by (cases "set vs = {}") (auto simp: min.commute min.left_commute)
  have mx: "Max (insert (max c v) (set vs)) = Max (insert c (insert v (set vs)))"
    by (cases "set vs = {}") (auto simp: max.commute max.left_commute)
  show ?case by (simp add: step Cons.IH mn mx)
qed

lemma field_min_max_Min_Max:
  assumes "vs \<noteq> []"
  shows "field_min_max (map Num vs) = (Num (Min (set vs)), Num (Max (set vs)))"
proof -
  obtain v rest where vs: "vs = v # rest" using assms by (cases vs) auto
  have "scan_step (Num v) (PInf, NInf) = (Num v, Num v)" by (simp add: scan_step_def)
  then show ?thesis by (simp add: field_min_max_def vs scan_Min_Max)
qed

lemma generateContours_thresholds_scanned:
  assumes "field_min_max fld = (Num mn, Num mx)" "1 / 100 \<le> mx" "mn < mx"
    "n = or_default (olevels opts) (contourLevels cfg)"
  shows "length (generateContours cfg isolines fld opts) = n
       \<and> map cvalue (generateContours cfg isolines fld opts)
           = map (\<lambda>i. Num (threshold_at mn mx n i)) [1..<n + 1]
       \<and> map normalizedValue (generateContours cfg isolines fld opts)
           = map (\<lambda>i. Some (Num (normalized_at mn mx n i))) [1..<n + 1]
       \<and> (\<forall>i. threshold_at mn mx n i = mn + (mx - mn) / (real n + 1) * real i \<and>
               normalized_at mn mx n i = (threshold_at mn mx n i - mn) / (mx - mn))
       \<and> (\<forall>i j. 1 \<le> i \<and> i < j \<and> j \<le> n \<longrightarrow>
             threshold_at mn mx n i < threshold_at mn mx n j \<and>
             normalized_at mn mx n i < normalized_at mn mx n j)
       \<and> (\<forall>i. 1 \<le> i \<and> i \<le> n \<longrightarrow>
             mn < threshold_at mn mx n i \<and> threshold_at mn mx n i < mx \<and>
             0 \<le> normalized_at mn mx n i \<and> normalized_at mn mx n i \<le> 1)"
proof -
  note gc = generateContours_levels[OF assms, of isolines]
  have d: "0 < mx - mn" using assms(3) by simp
  have asc: "threshold_at mn mx n i < threshold_at mn mx n j \<and>
      normalized_at mn mx n i < normalized_at mn mx n j" if "i < j" for i j
    using threshold_at_less[OF assms(3) that, of n] d
    by (simp add: normalized_at_def divide_strict_right_mono)
  have rng: "mn < threshold_at mn mx n i \<and> threshold_at mn mx n i < mx \<and>
      0 \<le> normalized_at mn mx n i \<and> normalized_at mn mx n i \<le> 1" if "1 \<le> i" "i \<le> n" for i
    using threshold_at_bounds[OF assms(3) that] d
    by (simp add: normalized_at_def)
  have len: "length (generateContours cfg isolines fld opts) = n"
    by (simp add: gc del: upt_Suc)
  have vals: "map cvalue (generateContours cfg isolines fld opts)
      = map (\<lambda>i. Num (threshold_at mn mx n i)) [1..<n + 1]"
    by (simp add: gc comp_def del: upt_Suc)
  have norms: "map normalizedValue (generateContours cfg isolines fld opts)
      = map (\<lambda>i. Some (Num (normalized_at mn mx n i))) [1..<n + 1]"
    by (simp add: gc comp_def del: upt_Suc)
  have defs: "\<forall>i. threshold_at mn mx n i = mn + (mx - mn) / (real n + 1) * real i \<and>
      normalized_at mn mx n i = (threshold_at mn mx n i - mn) / (mx - mn)"
    by (simp add: threshold_at_def normalized_at_def)
  have A: "\<forall>i j. 1 \<le> i \<and> i < j \<and> j \<le> n \<longrightarrow>
      threshold_at mn mx n i < threshold_at mn mx n j \<and>
      normalized_at mn mx n i < normalized_at mn mx n j"
    using asc by blast
  have R: "\<forall>i. 1 \<le> i \<and> i \<le> n \<longrightarrow>
      mn < threshold_at mn mx n i \<and> threshold_at mn mx n i < mx \<and>
      0 \<le> normalized_at mn mx n i \<and> normalized_at mn mx n i \<le> 1"
    using rng by blast
  show ?thesis by (intro conjI len vals norms defs A R)
qed

subsection \<open>The heap transforms implement the value transforms\<close>

lemma stableD: "stable rd \<Longrightarrow> rd h v = Some x \<Longrightarrow> rd (h @ ext) v = Some x"
  by (simp add: stable_def)

lemma stable_list_all2:
  "stable rd \<Longrightarrow> list_all2 (\<lambda>v x. rd h v = Some x) vs xs \<Longrightarrow>
     list_all2 (\<lambda>v x. rd (h @ ext) v = Some x) vs xs"
  by (erule list_all2_mono) (rule stableD)

lemma deref_append: "deref h v = Some ob \<Longrightarrow> deref (h @ ext) v = Some ob"
  by (auto simp: deref_def nth_append split: jsval.splits if_splits)

lemma deref_alloc: "deref (h @ [ob]) (Ref (length h)) = Some ob"
  by (simp add: deref_def)

lemma those_map_Some:
  "those (map f xs) = Some ys \<longleftrightarrow> list_all2 (\<lambda>x y. f x = Some y) xs ys"
proof (induction xs arbitrary: ys)
  case Nil
  show ?case by auto
next
  case (Cons x xs)
  show ?case
    by (cases ys) (auto simp: Cons.IH split: option.splits)
qed

lemma read_array_Some:
  "read_array rd h v = Some xs \<longleftrightarrow>
     (\<exists>vs. deref h v = Some (Array vs) \<and> list_all2 (\<lambda>v x. rd h v = Some x) vs xs)"
  by (auto simp: read_array_def those_map_Some split: option.splits jsobj.splits)

lemma stable_read_array:
  assumes "stable rd"
  shows "stable (read_array rd)"
  unfolding stable_def
proof (intro allI impI)
  fix h ext v and xs :: "'a list"
  assume "read_array rd h v = Some xs"
  then obtain vs where vs: "deref h v = Some (Array vs)"
    "list_all2 (\<lambda>v x. rd h v = Some x) vs xs"
    by (auto simp: read_array_Some)
  have "list_all2 (\<lambda>v x. rd (h @ ext) v = Some x) vs xs"
    by (rule stable_list_all2[OF assms vs(2)])
  with deref_append[OF vs(1), of ext] show "read_array rd (h @ ext) v = Some xs"
    by (auto simp: read_array_Some)
qed

lemma map_elements_implements:
  assumes "implements f g rdA rdB" "stable rdA" "stable rdB"
    "list_all2 (\<lambda>v x. rdA h v = Some x) vs xs"
  shows "\<exists>ws ext. map_elements f vs h = Some (ws, h @ ext) \<and>
           list_all2 (\<lambda>w y. rdB (h @ ext) w = Some y) ws (map g xs)"
  using assms(4)
proof (induction vs arbitrary: h xs)
  case Nil
  then show ?case by (auto intro: exI[of _ "[]"])
next
  case (Cons v vs)
  from Cons.prems obtain x xs' where xs: "xs = x # xs'" "rdA h v = Some x"
    "list_all2 (\<lambda>v x. rdA h v = Some x) vs xs'"
    by (auto simp: list_all2_Cons1)
  from assms(1) xs(2) obtain w e1 where w: "f v h = Some (w, h @ e1)"
    "rdB (h @ e1) w = Some (g x)"
    unfolding implements_def by blast
  have "list_all2 (\<lambda>v x. rdA (h @ e1) v = Some x) vs xs'"
    by (rule stable_list_all2[OF assms(2) xs(3)])
  from Cons.IH[OF this] obtain ws e2 where ws:
    "map_elements f vs (h @ e1) = Some (ws, (h @ e1) @ e2)"
    "list_all2 (\<lambda>w y. rdB ((h @ e1) @ e2) w = Some y) ws (map g xs')"
    by blast
  have "rdB ((h @ e1) @ e2) w = Some (g x)"
    by (rule stableD[OF assms(3) w(2)])
  with w(1) ws show ?case
    by (intro exI[of _ "w # ws"] exI[of _ "e1 @ e2"]) (simp add: xs(1))
qed

lemma array_map_implements:
  assumes "implements f g rdA rdB" "stable rdA" "stable rdB"
  shows "implements (array_map f) (map g) (read_array rdA) (read_array rdB)"
  unfolding implements_def
proof (intro allI impI)
  fix h v and xs :: "'a list"
  assume "read_array rdA h v = Some xs"
  then obtain vs where vs: "deref h v = Some (Array vs)"
    "list_all2 (\<lambda>v x. rdA h v = Some x) vs xs"
    by (auto simp: read_array_Some)
  from map_elements_implements[OF assms vs(2)] obtain ws ext where ws:
    "map_elements f vs h = Some (ws, h @ ext)"
    "list_all2 (\<lambda>w y. rdB (h @ ext) w = Some y) ws (map g xs)"
    by blast
  have "list_all2 (\<lambda>w y. rdB ((h @ ext) @ [Array ws]) w = Some y) ws (map g xs)"
    by (rule stable_list_all2[OF assms(3) ws(2)])
  then have "read_array rdB ((h @ ext) @ [Array ws]) (Ref (length (h @ ext))) = Some (map g xs)"
    unfolding read_array_Some using deref_alloc[of "h @ ext" "Array ws"] by blast
  then show "\<exists>w ext'. array_map f v h = Some (w, h @ ext') \<and>
      read_array rdB (h @ ext') w = Some (map g xs)"
    by (intro exI[of _ "Ref (length (h @ ext))"] exI[of _ "ext @ [Array ws]"])
       (simp add: array_map_def vs(1) ws(1) alloc_def)
qed

lemma stable_read_vertex: "stable read_vertex"
  unfolding stable_def
proof (intro allI impI)
  fix h ext v and p :: vertex
  assume r: "read_vertex h v = Some p"
  then obtain ob where ob: "deref h v = Some ob"
    by (cases "deref h v") (simp_all add: read_vertex_def)
  from r show "read_vertex (h @ ext) v = Some p"
    by (simp add: read_vertex_def ob deref_append[OF ob])
qed

lemma implements_point_map: "implements (point_map g) g read_vertex read_vertex"
  unfolding implements_def
proof (intro allI impI)
  fix h v and p :: vertex
  assume "read_vertex h v = Some p"
  then obtain x y where d: "deref h v = Some (Array [Number x, Number y])" and p: "p = (x, y)"
    by (auto simp: read_vertex_def split: option.splits jsobj.splits list.splits jsval.splits)
  show "\<exists>w ext. point_map g v h = Some (w, h @ ext) \<and> read_vertex (h @ ext) w = Some (g p)"
    by (intro exI[of _ "Ref (length h)"]
        exI[of _ "[Array [Number (fst (g (x, y))), Number (snd (g (x, y)))]]"])
       (simp add: point_map_def d p element_def to_number_def alloc_def read_vertex_def
        deref_alloc)
qed

lemma stable_read_multipolygon: "stable read_multipolygon"
  unfolding read_multipolygon_def
  by (intro stable_read_array stable_read_vertex)

lemma implements_multipolygon:
  "implements (array_map (array_map (array_map (point_map g)))) (map (map (map g)))
     read_multipolygon read_multipolygon"
  unfolding read_multipolygon_def
  by (intro array_map_implements implements_point_map stable_read_array stable_read_vertex)

lemma map_of_set_prop:
  "map_of (set_prop k v ps) k' = (if k' = k then Some v else map_of ps k')"
  by (induction ps) auto

lemma get_prop_set_prop:
  "get_prop (set_prop k v ps) k' = (if k' = k then v else get_prop ps k')"
  by (simp add: get_prop_def map_of_set_prop)

lemma read_optional_stable:
  assumes "stable rd" "read_optional (rd h) p = Some x"
  shows "read_optional (rd (h @ ext)) p = Some x"
  using assms(2) stableD[OF assms(1)]
  by (auto simp: read_optional_def split: option.splits)

lemma read_contour_Some:
  "read_contour h v = Some c \<longleftrightarrow>
     (\<exists>ps. deref h v = Some (Object ps) \<and>
        read_number (get_prop ps ''value'') = Some (cvalue c) \<and>
        read_multipolygon h (get_prop ps ''coordinates'') = Some (coordinates c) \<and>
        read_optional read_number (map_of ps ''normalizedValue'') = Some (normalizedValue c) \<and>
        read_optional (read_multipolygon h) (map_of ps ''pixelCoordinates'')
          = Some (pixelCoordinates c))"
  by (cases c) (auto simp: read_contour_def split: option.splits jsobj.splits)

lemma stable_read_contour: "stable read_contour"
  unfolding stable_def
proof (intro allI impI)
  fix h ext v c
  assume "read_contour h v = Some c"
  then obtain ps where ps: "deref h v = Some (Object ps)"
    "read_number (get_prop ps ''value'') = Some (cvalue c)"
    "read_multipolygon h (get_prop ps ''coordinates'') = Some (coordinates c)"
    "read_optional read_number (map_of ps ''normalizedValue'') = Some (normalizedValue c)"
    "read_optional (read_multipolygon h) (map_of ps ''pixelCoordinates'')
       = Some (pixelCoordinates c)"
    unfolding read_contour_Some by blast
  show "read_contour (h @ ext) v = Some c"
    unfolding read_contour_Some
    using deref_append[OF ps(1)] ps(2,4) stableD[OF stable_read_multipolygon ps(3)]
      read_optional_stable[OF stable_read_multipolygon ps(5)]
    by blast
qed

lemma implements_contour_coordinates:
  "implements (contour_map ''coordinates'' g)
     (\<lambda>c. c\<lparr>coordinates := map (map (map g)) (coordinates c)\<rparr>) read_contour read_contour"
  unfolding implements_def
proof (intro allI impI)
  fix h v c
  assume "read_contour h v = Some c"
  then obtain ps where ps: "deref h v = Some (Object ps)"
    "read_number (get_prop ps ''value'') = Some (cvalue c)"
    "read_multipolygon h (get_prop ps ''coordinates'') = Some (coordinates c)"
    "read_optional read_number (map_of ps ''normalizedValue'') = Some (normalizedValue c)"
    "read_optional (read_multipolygon h) (map_of ps ''pixelCoordinates'')
       = Some (pixelCoordinates c)"
    unfolding read_contour_Some by blast
  from implements_multipolygon[of g] ps(3) obtain w ext where w:
    "array_map (array_map (array_map (point_map g))) (get_prop ps ''coordinates'') h
       = Some (w, h @ ext)"
    "read_multipolygon (h @ ext) w = Some (map (map (map g)) (coordinates c))"
    unfolding implements_def by blast
  let ?ob = "Object (set_prop ''coordinates'' w ps)"
  let ?h = "(h @ ext) @ [?ob]"
  have call: "contour_map ''coordinates'' g v h = Some (Ref (length (h @ ext)), h @ (ext @ [?ob]))"
    by (simp add: contour_map_def ps(1) w(1) alloc_def)
  have 1: "read_multipolygon ?h w = Some (map (map (map g)) (coordinates c))"
    by (rule stableD[OF stable_read_multipolygon w(2)])
  have "read_optional (read_multipolygon (h @ ext)) (map_of ps ''pixelCoordinates'')
      = Some (pixelCoordinates c)"
    by (rule read_optional_stable[OF stable_read_multipolygon ps(5)])
  then have 2: "read_optional (read_multipolygon ?h) (map_of ps ''pixelCoordinates'')
      = Some (pixelCoordinates c)"
    by (rule read_optional_stable[OF stable_read_multipolygon])
  have "read_contour ?h (Ref (length (h @ ext)))
      = Some (c\<lparr>coordinates := map (map (map g)) (coordinates c)\<rparr>)"
    unfolding read_contour_Some
    using deref_alloc[of "h @ ext" ?ob] ps(2,4) 1 2
    by (intro exI[of _ "set_prop ''coordinates'' w ps"])
       (simp add: get_prop_set_prop map_of_set_prop)
  with call show "\<exists>w' ext'. contour_map ''coordinates'' g v h = Some (w', h @ ext') \<and>
      read_contour (h @ ext') w'
        = Some (c\<lparr>coordinates := map (map (map g)) (coordinates c)\<rparr>)"
    by (intro exI[of _ "Ref (length (h @ ext))"] exI[of _ "ext @ [?ob]"]) simp
qed

lemma implements_contour_pixelCoordinates:
  "implements (contour_map ''pixelCoordinates'' g)
     (\<lambda>c. c\<lparr>pixelCoordinates := Some (map (map (map g)) (coordinates c))\<rparr>)
     read_contour read_contour"
  unfolding implements_def
proof (intro allI impI)
  fix h v c
  assume "read_contour h v = Some c"
  then obtain ps where ps: "deref h v = Some (Object ps)"
    "read_number (get_prop ps ''value'') = Some (cvalue c)"
    "read_multipolygon h (get_prop ps ''coordinates'') = Some (coordinates c)"
    "read_optional read_number (map_of ps ''normalizedValue'') = Some (normalizedValue c)"
    unfolding read_contour_Some by blast
  from implements_multipolygon[of g] ps(3) obtain w ext where w:
    "array_map (array_map (array_map (point_map g))) (get_prop ps ''coordinates'') h
       = Some (w, h @ ext)"
    "read_multipolygon (h @ ext) w = Some (map (map (map g)) (coordinates c))"
    unfolding implements_def by blast
  let ?ob = "Object (set_prop ''pixelCoordinates'' w ps)"
  let ?h = "(h @ ext) @ [?ob]"
  have call: "contour_map ''pixelCoordinates'' g v h
      = Some (Ref (length (h @ ext)), h @ (ext @ [?ob]))"
    by (simp add: contour_map_def ps(1) w(1) alloc_def)
  have 1: "read_multipolygon ?h w = Some (map (map (map g)) (coordinates c))"
    by (rule stableD[OF stable_read_multipolygon w(2)])
  have "read_multipolygon (h @ ext) (get_prop ps ''coordinates'') = Some (coordinates c)"
    by (rule stableD[OF stable_read_multipolygon ps(3)])
  then have 2: "read_multipolygon ?h (get_prop ps ''coordinates'') = Some (coordinates c)"
    by (rule stableD[OF stable_read_multipolygon])
  have "read_contour ?h (Ref (length (h @ ext)))
      = Some (c\<lparr>pixelCoordinates := Some (map (map (map g)) (coordinates c))\<rparr>)"
    unfolding read_contour_Some
    using deref_alloc[of "h @ ext" ?ob] ps(2,4) 1 2
    by (intro exI[of _ "set_prop ''pixelCoordinates'' w ps"])
       (simp add: get_prop_set_prop map_of_set_prop read_optional_def)
  with call show "\<exists>w' ext'. contour_map ''pixelCoordinates'' g v h = Some (w', h @ ext') \<and>
      read_contour (h @ ext') w'
        = Some (c\<lparr>pixelCoordinates := Some (map (map (map g)) (coordinates c))\<rparr>)"
    by (intro exI[of _ "Ref (length (h @ ext))"] exI[of _ "ext @ [?ob]"]) simp
qed

lemma transformToGeo_heap_refines:
  assumes "read_contours h v = Some cs"
  shows "\<exists>w ext. transformToGeo_heap cfg v b h = Some (w, h @ ext) \<and>
           read_contours (h @ ext) w = Some (transformToGeo cfg cs b) \<and>
           read_contours (h @ ext) v = Some cs"
proof -
  have "implements
      (array_map (contour_map ''coordinates''
         (geo_vertex b (cell_size (east b) (west b) (gridWidth cfg))
            (cell_size (north b) (south b) (gridHeight cfg)))))
      (map (\<lambda>c. c\<lparr>coordinates := map (map (map
         (geo_vertex b (cell_size (east b) (west b) (gridWidth cfg))
            (cell_size (north b) (south b) (gridHeight cfg))))) (coordinates c)\<rparr>))
      read_contours read_contours"
    unfolding read_contours_def
    by (intro array_map_implements implements_contour_coordinates stable_read_contour)
  from this assms obtain w ext where
    "transformToGeo_heap cfg v b h = Some (w, h @ ext)"
    "read_contours (h @ ext) w = Some (transformToGeo cfg cs b)"
    unfolding implements_def transformToGeo_heap_def transformToGeo_def Let_def by blast
  moreover have "read_contours (h @ ext) v = Some cs"
    using assms stableD[OF stable_read_array[OF stable_read_contour]]
    unfolding read_contours_def by blast
  ultimately show ?thesis by blast
qed

lemma transformToPixels_heap_refines:
  assumes "read_contours h v = Some cs"
  shows "\<exists>w ext. transformToPixels_heap cfg v pb h = Some (w, h @ ext) \<and>
           read_contours (h @ ext) w = Some (transformToPixels cfg cs pb) \<and>
           read_contours (h @ ext) v = Some cs"
proof -
  have "implements
      (array_map (contour_map ''pixelCoordinates''
         (pixel_vertex cfg pb (js_div (Num (pwidth pb)) (Num (real (gridWidth cfg))))
            (js_div (Num (pheight pb)) (Num (real (gridHeight cfg)))))))
      (map (\<lambda>c. c\<lparr>pixelCoordinates := Some (map (map (map
         (pixel_vertex cfg pb (js_div (Num (pwidth pb)) (Num (real (gridWidth cfg))))
            (js_div (Num (pheight pb)) (Num (real (gridHeight cfg))))))) (coordinates c))\<rparr>))
      read_contours read_contours"
    unfolding read_contours_def
    by (intro array_map_implements implements_contour_pixelCoordinates stable_read_contour)
  from this assms obtain w ext where
    "transformToPixels_heap cfg v pb h = Some (w, h @ ext)"
    "read_contours (h @ ext) w = Some (transformToPixels cfg cs pb)"
    unfolding implements_def transformToPixels_heap_def transformToPixels_def Let_def by blast
  moreover have "read_contours (h @ ext) v = Some cs"
    using assms stableD[OF stable_read_array[OF stable_read_contour]]
    unfolding read_contours_def by blast
  ultimately show ?thesis by blast
qed

lemma read_contour_heap: "read_contours contour_heap (Ref 6) = Some [two_vertex_contour]"
  by (simp add: read_contours_def read_array_def read_contour_def read_multipolygon_def
      read_vertex_def read_optional_def read_number_def get_prop_def deref_def
      contour_heap_def two_vertex_contour_def)

subsection \<open>The structure of a transformed contour list\<close>

lemma transforms_shape:
  "length (transformToGeo cfg cs b) = length cs
   \<and> map (shape \<circ> coordinates) (transformToGeo cfg cs b) = map (shape \<circ> coordinates) cs
   \<and> map cvalue (transformToGeo cfg cs b) = map cvalue cs
   \<and> map normalizedValue (transformToGeo cfg cs b) = map normalizedValue cs
   \<and> map pixelCoordinates (transformToGeo cfg cs b) = map pixelCoordinates cs
   \<and> length (transformToPixels cfg cs pb) = length cs
   \<and> map (map_option shape \<circ> pixelCoordinates) (transformToPixels cfg cs pb)
       = map (Some \<circ> shape \<circ> coordinates) cs
   \<and> map coordinates (transformToPixels cfg cs pb) = map coordinates cs
   \<and> map cvalue (transformToPixels cfg cs pb) = map cvalue cs
   \<and> map normalizedValue (transformToPixels cfg cs pb) = map normalizedValue cs"
  by (simp add: transformToGeo_def transformToPixels_def Let_def shape_def comp_def)

subsection \<open>One call of process\<close>

lemma process_in_eq:
  assumes "generateScalarField (config_obj w) rs b = Some fld"
  shows "process_in isolines rs b pb w =
     Some (\<lparr>contours = transformToPixels (config_obj w)
                (generateContours (config_obj w) isolines fld no_options) pb,
             field = fld,
             stats = \<lparr>resourceCount = length rs,
                       contourCount = length (generateContours (config_obj w) isolines fld
                                                no_options),
                       processingTime =
                         js_sub (Num (clock w (Suc (readings w)))) (Num (clock w (readings w)))\<rparr>\<rparr>,
           w\<lparr>readings := readings w + 2,
             console := console w @
               [LogProcessing (length rs),
                if js_lt (snd (field_min_max fld)) (Num (1 / 100)) then LogNoEnergy
                else LogGenerated (length (generateContours (config_obj w) isolines fld
                                             no_options)),
                LogCompleted
                  (js_sub (Num (clock w (Suc (readings w)))) (Num (clock w (readings w))))]\<rparr>)"
  using assms
  by (simp add: process_in_def Let_def console_log_def performance_now_def
      generateContours_in_def)

section \<open>Claims\<close>

text \<open>
  C1.  Every point should contribute its Gaussian, with the default profile when its
  type is not one of the configured types (the comment on \<open>defaultParams\<close> says so).
  The program misses the types that name an inherited property: for the type
  \<^verbatim>\<open>constructor\<close> the lookup finds a function instead of a profile, the cutoff is NaN,
  no loop runs and the point contributes nothing, not even to the cell it is the
  centre of; an ordinary unknown type at the same place gets the default profile and
  its own cell the default amplitude.
\<close>

theorem inherited_type_contributes_nothing:
  "lookup_params CONFIG inherited_type_point = Inherited
   \<and> generateScalarField CONFIG [inherited_type_point] taipei_window
       = Some (replicate 22500 (Num 0))
   \<and> cell_value CONFIG (generateScalarField CONFIG [inherited_type_point] taipei_window) 75 75
       = Some (Num 0)
   \<and> lookup_params CONFIG unknown_type_point = Profile (defaultParams CONFIG)
   \<and> cell_value CONFIG (generateScalarField CONFIG [unknown_type_point] taipei_window) 75 75
       = Some (Num (1 / 2))"
proof -
  have inh: "lookup_params CONFIG inherited_type_point = Inherited"
    by (simp add: lookup_params_def typeParams_get_def object_prototype_names_def
        inherited_type_point_def CONFIG_def)
  have zero: "generateScalarField CONFIG [inherited_type_point] taipei_window
      = Some (replicate 22500 (Num 0))"
    using generateScalarField_Inherited[OF inh, of taipei_window] by (simp add: CONFIG_def)
  have own: "cell_value CONFIG (generateScalarField CONFIG [inherited_type_point] taipei_window)
      75 75 = Some (Num 0)"
    by (simp add: zero cell_value_def) (simp add: CONFIG_def)
  have unk: "lookup_params CONFIG unknown_type_point = Profile (defaultParams CONFIG)"
    by (simp add: lookup_params_def typeParams_get_def object_prototype_names_def
        unknown_type_point_def CONFIG_def)
  have p: "params_of CONFIG unknown_type_point = \<lparr>sigma = 3 / 1000, amplitude = 1 / 2\<rparr>"
    by (simp add: params_of_def unknown_type_point_def CONFIG_def)
  have hp: "list_all (has_profile CONFIG) [unknown_type_point]"
    by (simp add: has_profile_def unk p) (simp add: CONFIG_def)
  have h: "west taipei_window \<noteq> east taipei_window" "south taipei_window \<noteq> north taipei_window"
    "(75::nat) < gridWidth CONFIG" "(75::nat) < gridHeight CONFIG"
    by (simp_all add: taipei_window_def CONFIG_def)
  have c: "west taipei_window < east taipei_window" "south taipei_window < north taipei_window"
    "lng unknown_type_point = center_lng CONFIG taipei_window 75"
    "lat unknown_type_point = center_lat CONFIG taipei_window 75"
    by (simp_all add: taipei_window_def CONFIG_def unknown_type_point_def center_lng_def
        center_lat_def cellWidth_of_def cellHeight_of_def)
  have "field_sum CONFIG taipei_window [unknown_type_point] 75 75 = 1 / 2"
    using covers_own_cell[OF CONFIG_valid c(1,2) h(3,4) c(3,4)] c(3,4)
    by (simp add: field_sum_def gaussian_def center_distance_def p)
  then have def: "cell_value CONFIG
      (generateScalarField CONFIG [unknown_type_point] taipei_window) 75 75 = Some (Num (1 / 2))"
    by (simp add: cell_value_field_sum[OF CONFIG_valid h hp])
  show ?thesis by (intro conjI inh zero own unk def)
qed

text \<open>
  C2.  Let \<open>mn\<close> and \<open>mx\<close> be the least and the greatest value of a non-empty field of
  finite values, with \<open>mx\<close> at least 0.01 and \<open>mn < mx\<close>, and let \<open>n\<close> be the number of
  levels: \<open>options.levels\<close> when it is given and not zero, the configured
  \<open>contourLevels\<close> otherwise.  Then \<open>generateContours\<close> returns exactly \<open>n\<close> contours;
  their values are \<open>mn + step * i\<close> for \<open>i\<close> from 1 to \<open>n\<close> with
  \<open>step = (mx - mn) / (n + 1)\<close>, in this order; their normalised values are
  \<open>(value - mn) / (mx - mn)\<close>; both sequences are strictly ascending; every threshold
  lies strictly between \<open>mn\<close> and \<open>mx\<close> and every normalised value in \<open>[0, 1]\<close>.
\<close>

theorem generateContours_thresholds:
  assumes "vs \<noteq> []" "mn = Min (set vs)" "mx = Max (set vs)" "1 / 100 \<le> mx" "mn < mx"
    and "n = (case olevels opts of
                None \<Rightarrow> contourLevels cfg
              | Some k \<Rightarrow> if k = 0 then contourLevels cfg else k)"
  shows "length (generateContours cfg isolines (map Num vs) opts) = n
       \<and> map cvalue (generateContours cfg isolines (map Num vs) opts)
           = map (\<lambda>i. Num (threshold_at mn mx n i)) [1..<n + 1]
       \<and> map normalizedValue (generateContours cfg isolines (map Num vs) opts)
           = map (\<lambda>i. Some (Num (normalized_at mn mx n i))) [1..<n + 1]
       \<and> (\<forall>i. threshold_at mn mx n i = mn + (mx - mn) / (real n + 1) * real i \<and>
               normalized_at mn mx n i = (threshold_at mn mx n i - mn) / (mx - mn))
       \<and> (\<forall>i j. 1 \<le> i \<and> i < j \<and> j \<le> n \<longrightarrow>
             threshold_at mn mx n i < threshold_at mn mx n j \<and>
             normalized_at mn mx n i < normalized_at mn mx n j)
       \<and> (\<forall>i. 1 \<le> i \<and> i \<le> n \<longrightarrow>
             mn < threshold_at mn mx n i \<and> threshold_at mn mx n i < mx \<and>
             0 \<le> normalized_at mn mx n i \<and> normalized_at mn mx n i \<le> 1)"
proof -
  have scan: "field_min_max (map Num vs) = (Num mn, Num mx)"
    by (simp add: field_min_max_Min_Max[OF assms(1)] assms(2,3))
  have n: "n = or_default (olevels opts) (contourLevels cfg)"
    by (simp add: assms(6) or_default_def)
  show ?thesis
    by (rule generateContours_thresholds_scanned[OF scan assms(4,5) n])
qed

text \<open>
  An instance: a field of the values 1/4, 3/4 and 1/2 with three levels asked for; the
  thresholds are 3/8, 1/2 and 5/8.
\<close>

theorem generateContours_thresholds_witness:
  "[1 / 4, 3 / 4, 1 / 2 :: real] \<noteq> [] \<and>
   (1 / 4 :: real) = Min (set [1 / 4, 3 / 4, 1 / 2]) \<and>
   (3 / 4 :: real) = Max (set [1 / 4, 3 / 4, 1 / 2]) \<and>
   (1 / 100 :: real) \<le> 3 / 4 \<and> (1 / 4 :: real) < 3 / 4 \<and>
   olevels three_levels = Some 3 \<and>
   length (generateContours CONFIG no_isolines (map Num [1 / 4, 3 / 4, 1 / 2]) three_levels) = 3 \<and>
   map cvalue (generateContours CONFIG no_isolines (map Num [1 / 4, 3 / 4, 1 / 2]) three_levels)
     = [Num (3 / 8), Num (1 / 2), Num (5 / 8)] \<and>
   map normalizedValue
     (generateContours CONFIG no_isolines (map Num [1 / 4, 3 / 4, 1 / 2]) three_levels)
     = [Some (Num (1 / 4)), Some (Num (1 / 2)), Some (Num (3 / 4))]"
proof -
  have h: "[1 / 4, 3 / 4, 1 / 2 :: real] \<noteq> []"
    "(1 / 4 :: real) = Min (set [1 / 4, 3 / 4, 1 / 2])"
    "(3 / 4 :: real) = Max (set [1 / 4, 3 / 4, 1 / 2])"
    "(1 / 100 :: real) \<le> 3 / 4" "(1 / 4 :: real) < 3 / 4"
    by simp_all
  have n: "3 = (case olevels three_levels of
                  None \<Rightarrow> contourLevels CONFIG
                | Some k \<Rightarrow> if k = 0 then contourLevels CONFIG else k)"
    by (simp add: three_levels_def)
  have l: "olevels three_levels = Some 3" by (simp add: three_levels_def)
  have up: "[1..<3 + 1] = [1, 2, 3 :: nat]" by (simp add: upt_rec)
  note g = generateContours_thresholds[OF h n, where isolines = no_isolines]
  have 1: "length (generateContours CONFIG no_isolines (map Num [1 / 4, 3 / 4, 1 / 2])
      three_levels) = 3"
    using g by blast
  have 2: "map cvalue (generateContours CONFIG no_isolines (map Num [1 / 4, 3 / 4, 1 / 2])
      three_levels) = [Num (3 / 8), Num (1 / 2), Num (5 / 8)]"
    using g[THEN conjunct2, THEN conjunct1] unfolding up
    by (simp add: threshold_at_def)
  have 3: "map normalizedValue (generateContours CONFIG no_isolines
      (map Num [1 / 4, 3 / 4, 1 / 2]) three_levels)
      = [Some (Num (1 / 4)), Some (Num (1 / 2)), Some (Num (3 / 4))]"
    using g[THEN conjunct2, THEN conjunct2, THEN conjunct1] unfolding up
    by (simp add: normalized_at_def threshold_at_def)
  show ?thesis by (intro conjI h l 1 2 3)
qed

text \<open>
  C3.  A flat field above the floor should give an empty contour sequence without NaN.
  The program guards only a maximum below 0.01: on the flat field of value 1, which
  \<open>process\<close> builds from a hospital in a window collapsed to its position, it returns
  the 12 contours of the default configuration, and the normalised value of each is
  \<open>0 / 0\<close>, that is NaN, not a value of the range from 0 to 1 that the comment in
  \<open>generateContours\<close> announces.
\<close>

theorem flat_field_NaN_contours:
  "map normalizedValue (generateContours CONFIG isolines (replicate 22500 (Num 1)) no_options)
     = replicate 12 (Some NaN)
   \<and> map_option (map normalizedValue \<circ> contours)
       (process CONFIG isolines t0 t1 [corner_hospital] point_window pb)
     = Some (replicate 12 (Some NaN))"
proof -
  have n: "or_default (olevels no_options) (contourLevels CONFIG) = 12"
    by (simp add: or_default_def no_options_def CONFIG_def)
  have flat: "map normalizedValue
      (generateContours CONFIG isolines (replicate 22500 (Num 1)) no_options)
      = replicate 12 (Some NaN)"
    using generateContours_flat[of 22500 1 CONFIG isolines no_options] by (simp add: n)
  have keep: "map normalizedValue (transformToPixels cfg cs pb) = map normalizedValue cs"
    for cfg cs
    by (simp add: transformToPixels_def Let_def comp_def)
  show ?thesis
    by (simp add: flat process_def generateScalarField_point_window Let_def keep)
qed

text \<open>
  C4 (amended).  A point does not leave unmodified every cell farther than its cutoff
  radius: it updates a rectangle of whole cells around the circle.  For a valid
  configuration and a window with \<open>west < east\<close> and \<open>south < north\<close>, a cell whose centre
  is farther from the point \<open>r\<close> than the cutoff radius plus two and a half cell sizes,
  along the longitude or along the latitude, has the same value with and without \<open>r\<close>
  added after the points \<open>rs\<close>, and the value 0 when \<open>r\<close> is the only point.  (In exact
  arithmetic the rectangle ends within one and a half cell sizes of the cutoff radius;
  the program rounds the quotient it takes the floor or ceiling of, which can add a
  cell, hence two and a half.)
\<close>

theorem distant_cells_unmodified:
  assumes "valid_config cfg" "west b < east b" "south b < north b"
    "x < gridWidth cfg" "y < gridHeight cfg"
    and far: "cutoff_radius cfg r + 5 / 2 * cellWidth_of cfg b < \<bar>center_lng cfg b x - lng r\<bar> \<or>
      cutoff_radius cfg r + 5 / 2 * cellHeight_of cfg b < \<bar>center_lat cfg b y - lat r\<bar>"
  shows "cell_value cfg (generateScalarField cfg (rs @ [r]) b) x y
           = cell_value cfg (generateScalarField cfg rs b) x y
       \<and> cell_value cfg (generateScalarField cfg [r] b) x y = Some (Num 0)"
proof -
  note out = margin_not_in_range[OF assms(1-3) far]
  note v = cell_value_field[OF assms(1,4,5)]
  have "cell_value cfg (generateScalarField cfg (rs' @ [r]) b) x y
      = cell_value cfg (generateScalarField cfg rs' b) x y" for rs'
    by (simp add: v cell_total_snoc_outside[OF out])
  from this[of rs] this[of "[]"] show ?thesis
    by (simp add: v) (simp add: cell_total_def)
qed

text \<open>
  An instance: the cell \<open>(0, 0)\<close>, 75 cells west of the hospital.
\<close>

theorem distant_cells_unmodified_witness:
  "valid_config CONFIG \<and> west taipei_window < east taipei_window \<and>
   south taipei_window < north taipei_window \<and>
   (0::nat) < gridWidth CONFIG \<and> (0::nat) < gridHeight CONFIG \<and>
   cutoff_radius CONFIG central_hospital + 5 / 2 * cellWidth_of CONFIG taipei_window
     < \<bar>center_lng CONFIG taipei_window 0 - lng central_hospital\<bar> \<and>
   cell_value CONFIG (generateScalarField CONFIG [central_hospital] taipei_window) 0 0
     = Some (Num 0)"
proof -
  have h: "west taipei_window < east taipei_window" "south taipei_window < north taipei_window"
    "(0::nat) < gridWidth CONFIG" "(0::nat) < gridHeight CONFIG"
    by (simp_all add: taipei_window_def CONFIG_def)
  have cw: "cellWidth_of CONFIG taipei_window = 1 / 1000"
    by (simp add: cellWidth_of_def CONFIG_def taipei_window_def)
  have c: "cutoff_radius CONFIG central_hospital = 18 / 1000"
    by (simp add: cutoff_radius_def params_of_def CONFIG_def central_hospital_def)
  have far: "cutoff_radius CONFIG central_hospital + 5 / 2 * cellWidth_of CONFIG taipei_window
      < \<bar>center_lng CONFIG taipei_window 0 - lng central_hospital\<bar>"
    unfolding c center_lng_def cw
    by (simp add: taipei_window_def central_hospital_def)
  have far': "cutoff_radius CONFIG central_hospital + 5 / 2 * cellWidth_of CONFIG taipei_window
        < \<bar>center_lng CONFIG taipei_window 0 - lng central_hospital\<bar> \<or>
      cutoff_radius CONFIG central_hospital + 5 / 2 * cellHeight_of CONFIG taipei_window
        < \<bar>center_lat CONFIG taipei_window 0 - lat central_hospital\<bar>"
    using far by blast
  note distant_cells_unmodified[OF CONFIG_valid h far', THEN conjunct2]
  then show ?thesis using CONFIG_valid h far by blast
qed

text \<open>
  The claim as stated fails: the centre of the cell \<open>(94, 75)\<close> is 0.019 degrees from
  the hospital, farther than the cutoff radius 0.018, and the cell still receives the
  energy \<open>exp (- 361 / 72)\<close>, because the cutoff cell range is rounded outwards to whole
  cells (columns 57 to 94).
\<close>

theorem cutoff_distance_counterexample:
  "cutoff_radius CONFIG central_hospital
     < center_distance CONFIG taipei_window central_hospital 94 75 \<and>
   cell_value CONFIG (generateScalarField CONFIG [central_hospital] taipei_window) 94 75
     = Some (Num (exp (- (361 / 72)))) \<and>
   cell_value CONFIG (generateScalarField CONFIG [central_hospital] taipei_window) 94 75
     \<noteq> Some (Num 0)"
proof -
  have h: "west taipei_window \<noteq> east taipei_window" "south taipei_window \<noteq> north taipei_window"
    "(94::nat) < gridWidth CONFIG" "(75::nat) < gridHeight CONFIG"
    by (simp_all add: taipei_window_def CONFIG_def)
  have p: "params_of CONFIG central_hospital = \<lparr>sigma = 6 / 1000, amplitude = 1\<rparr>"
    by (simp add: params_of_def CONFIG_def central_hospital_def)
  have hp: "list_all (has_profile CONFIG) [central_hospital]"
    by (simp add: has_profile_def p)
       (simp add: lookup_params_def typeParams_get_def CONFIG_def central_hospital_def)
  have cw: "cellWidth_of CONFIG taipei_window = 1 / 1000"
    "cellHeight_of CONFIG taipei_window = 1 / 1000"
    by (simp_all add: cellWidth_of_def cellHeight_of_def CONFIG_def taipei_window_def)
  have d: "center_distance CONFIG taipei_window central_hospital 94 75 = 19 / 1000"
    unfolding center_distance_def center_lng_def center_lat_def cw
    by (simp add: taipei_window_def central_hospital_def power2_eq_square real_sqrt_divide)
  have c: "cutoff_radius CONFIG central_hospital = 18 / 1000"
    by (simp add: cutoff_radius_def p) (simp add: CONFIG_def)
  have cov: "cutoff_covers CONFIG taipei_window central_hospital 94 75"
    unfolding cutoff_covers_def c cw
    by (simp add: CONFIG_def taipei_window_def central_hospital_def)
  have v: "field_sum CONFIG taipei_window [central_hospital] 94 75 = exp (- (361 / 72))"
    by (simp add: field_sum_def cov gaussian_def p d power2_eq_square)
  show ?thesis
    by (simp add: cell_value_field_sum[OF CONFIG_valid h hp] v c d)
qed

text \<open>
  C5.  For a grid of positive size, \<open>transformToPixels\<close> sends the vertex \<open>(x, y)\<close> at
  any position of any ring to
  \<open>(left + x * (width / gridWidth), top + (gridHeight - y) * (height / gridHeight))\<close>;
  and of two vertices with the same \<open>x\<close>, the one with the larger grid \<open>y\<close> gets the
  strictly smaller pixel \<open>y\<close> when the height of the pixel bounds is positive.
\<close>

theorem transformToPixels_vertex:
  assumes "0 < gridWidth cfg" "0 < gridHeight cfg" "grid_vertex cs p = Some (Num x, Num y)"
  shows "pixel_vertex_of (transformToPixels cfg cs pb) p
           = Some (Num (pleft pb + x * (pwidth pb / real (gridWidth cfg))),
                   Num (ptop pb + (real (gridHeight cfg) - y)
                                    * (pheight pb / real (gridHeight cfg))))
       \<and> (\<forall>p' y'. grid_vertex cs p' = Some (Num x, Num y') \<and> y < y' \<and> 0 < pheight pb \<longrightarrow>
             (\<exists>px py py'.
                pixel_vertex_of (transformToPixels cfg cs pb) p = Some (px, Num py) \<and>
                pixel_vertex_of (transformToPixels cfg cs pb) p' = Some (px, Num py') \<and>
                py' < py))"
proof -
  note pv = pixel_vertex_Num[OF assms(1,2)]
  have img: "pixel_vertex_of (transformToPixels cfg cs pb) q
      = Some (Num (pleft pb + a * (pwidth pb / real (gridWidth cfg))),
              Num (ptop pb + (real (gridHeight cfg) - c)
                               * (pheight pb / real (gridHeight cfg))))"
    if "grid_vertex cs q = Some (Num a, Num c)" for q a c
    by (simp only: pixel_vertex_of_transform that option.map pv)
  have mono: "ptop pb + (real (gridHeight cfg) - y') * (pheight pb / real (gridHeight cfg))
      < ptop pb + (real (gridHeight cfg) - y) * (pheight pb / real (gridHeight cfg))"
    if "y < y'" "0 < pheight pb" for y'
  proof -
    define sy where "sy = pheight pb / real (gridHeight cfg)"
    have "0 < sy" unfolding sy_def using that(2) assms(2) by simp
    then have "(real (gridHeight cfg) - y') * sy < (real (gridHeight cfg) - y) * sy"
      using that(1) by simp
    then show ?thesis unfolding sy_def by simp
  qed
  show ?thesis
    using img[OF assms(3)] img mono by blast
qed

text \<open>
  An instance: the vertices \<open>(10, 0)\<close> and \<open>(10, 150)\<close> on a canvas 300 wide and 600
  high.
\<close>

theorem transformToPixels_vertex_witness:
  "0 < gridWidth CONFIG \<and> 0 < gridHeight CONFIG \<and>
   grid_vertex [two_vertex_contour] (0, 0, 0, 0) = Some (Num 10, Num 0) \<and>
   grid_vertex [two_vertex_contour] (0, 0, 0, 1) = Some (Num 10, Num 150) \<and>
   (0 :: real) < 150 \<and> 0 < pheight canvas \<and>
   pixel_vertex_of (transformToPixels CONFIG [two_vertex_contour] canvas) (0, 0, 0, 0)
     = Some (Num 20, Num 600) \<and>
   (\<exists>px py py'.
      pixel_vertex_of (transformToPixels CONFIG [two_vertex_contour] canvas) (0, 0, 0, 0)
        = Some (px, Num py) \<and>
      pixel_vertex_of (transformToPixels CONFIG [two_vertex_contour] canvas) (0, 0, 0, 1)
        = Some (px, Num py') \<and>
      py' < py)"
proof -
  have h: "0 < gridWidth CONFIG" "0 < gridHeight CONFIG"
    "grid_vertex [two_vertex_contour] (0, 0, 0, 0) = Some (Num 10, Num 0)"
    by (simp_all add: CONFIG_def two_vertex_contour_def vertex_at_def)
  have h': "grid_vertex [two_vertex_contour] (0, 0, 0, 1) = Some (Num 10, Num 150)"
    "(0 :: real) < 150" "0 < pheight canvas"
    by (simp_all add: two_vertex_contour_def vertex_at_def canvas_def)
  note t = transformToPixels_vertex[OF h, of canvas]
  have 1: "pixel_vertex_of (transformToPixels CONFIG [two_vertex_contour] canvas) (0, 0, 0, 0)
      = Some (Num 20, Num 600)"
    using t[THEN conjunct1] by (simp add: canvas_def CONFIG_def)
  have 2: "\<exists>px py py'.
      pixel_vertex_of (transformToPixels CONFIG [two_vertex_contour] canvas) (0, 0, 0, 0)
        = Some (px, Num py) \<and>
      pixel_vertex_of (transformToPixels CONFIG [two_vertex_contour] canvas) (0, 0, 0, 1)
        = Some (px, Num py') \<and>
      py' < py"
    using t[THEN conjunct2] h' by blast
  show ?thesis using h h' 1 2 by blast
qed

text \<open>
  C6.  \<open>generateContours\<close> returns the empty list whenever the scanned maximum is
  below 0.01; \<open>generateScalarField\<close> on no points returns the grid of zeros; and on
  that grid \<open>generateContours\<close> returns the empty list.
\<close>

theorem no_signal_no_contours:
  "(js_lt (snd (field_min_max fld)) (Num (1 / 100)) \<longrightarrow> generateContours cfg isolines fld opts = [])
   \<and> generateScalarField cfg [] b = Some (replicate (gridWidth cfg * gridHeight cfg) (Num 0))
   \<and> generateContours cfg isolines (replicate (gridWidth cfg * gridHeight cfg) (Num 0)) opts = []"
proof -
  have "js_lt (snd (field_min_max (replicate n (Num 0)))) (Num (1 / 100))" for n
    by (cases "n = 0") (simp_all add: field_min_max_replicate, simp add: field_min_max_def)
  then show ?thesis
    by (simp add: generateContours_def Let_def generateScalarField_def)
qed

text \<open>
  An instance: a field whose maximum is 0.005.
\<close>

theorem no_signal_no_contours_witness:
  "js_lt (snd (field_min_max [Num (1 / 1000), Num (1 / 200)])) (Num (1 / 100)) \<and>
   generateContours CONFIG no_isolines [Num (1 / 1000), Num (1 / 200)] no_options = []"
proof -
  have h: "js_lt (snd (field_min_max [Num (1 / 1000), Num (1 / 200)])) (Num (1 / 100))"
    by (simp add: field_min_max_def scan_step_def)
  from no_signal_no_contours[THEN conjunct1, rule_format, OF h, of CONFIG no_isolines no_options]
  show ?thesis using h by blast
qed

text \<open>
  C7.  Neither transform changes anything the caller holds: whenever the argument is a
  list of contours on the heap, the call returns, the heap after the call is the heap
  before it followed by newly allocated arrays and objects, so every array and object
  that existed before the call, the input contours and everything they refer to among
  them, is unchanged, and the argument still reads as the same contours.  The result
  reads as the transform of these contours, and it keeps the structure: it has as many
  contours as the input, every contour as many polygons, every polygon as many rings
  and every ring as many vertices; the other properties of a contour, and for
  \<open>transformToPixels\<close> also its grid coordinates, are those of the input.
\<close>

theorem transforms_keep_input_and_structure:
  assumes "read_contours h v = Some cs"
  shows "(\<exists>w h'. transformToGeo_heap cfg v b h = Some (w, h') \<and> take (length h) h' = h \<and>
            read_contours h' v = Some cs \<and>
            read_contours h' w = Some (transformToGeo cfg cs b))
       \<and> (\<exists>w h'. transformToPixels_heap cfg v pb h = Some (w, h') \<and> take (length h) h' = h \<and>
            read_contours h' v = Some cs \<and>
            read_contours h' w = Some (transformToPixels cfg cs pb))
       \<and> length (transformToGeo cfg cs b) = length cs
       \<and> map (shape \<circ> coordinates) (transformToGeo cfg cs b) = map (shape \<circ> coordinates) cs
       \<and> map cvalue (transformToGeo cfg cs b) = map cvalue cs
       \<and> map normalizedValue (transformToGeo cfg cs b) = map normalizedValue cs
       \<and> map pixelCoordinates (transformToGeo cfg cs b) = map pixelCoordinates cs
       \<and> length (transformToPixels cfg cs pb) = length cs
       \<and> map (map_option shape \<circ> pixelCoordinates) (transformToPixels cfg cs pb)
           = map (Some \<circ> shape \<circ> coordinates) cs
       \<and> map coordinates (transformToPixels cfg cs pb) = map coordinates cs
       \<and> map cvalue (transformToPixels cfg cs pb) = map cvalue cs
       \<and> map normalizedValue (transformToPixels cfg cs pb) = map normalizedValue cs"
proof -
  from transformToGeo_heap_refines[OF assms, of cfg b] obtain w ext where
    "transformToGeo_heap cfg v b h = Some (w, h @ ext)"
    "read_contours (h @ ext) w = Some (transformToGeo cfg cs b)"
    "read_contours (h @ ext) v = Some cs"
    by blast
  then have geo: "\<exists>w h'. transformToGeo_heap cfg v b h = Some (w, h') \<and>
      take (length h) h' = h \<and> read_contours h' v = Some cs \<and>
      read_contours h' w = Some (transformToGeo cfg cs b)"
    by (intro exI[of _ w] exI[of _ "h @ ext"]) simp
  from transformToPixels_heap_refines[OF assms, of cfg pb] obtain w ext where
    "transformToPixels_heap cfg v pb h = Some (w, h @ ext)"
    "read_contours (h @ ext) w = Some (transformToPixels cfg cs pb)"
    "read_contours (h @ ext) v = Some cs"
    by blast
  then have px: "\<exists>w h'. transformToPixels_heap cfg v pb h = Some (w, h') \<and>
      take (length h) h' = h \<and> read_contours h' v = Some cs \<and>
      read_contours h' w = Some (transformToPixels cfg cs pb)"
    by (intro exI[of _ w] exI[of _ "h @ ext"]) simp
  show ?thesis
    using geo px transforms_shape[of cfg cs b pb] by blast
qed

text \<open>
  The theorem at the heap \<open>contour_heap\<close>, whose address 6 holds a list of one contour.
\<close>

theorem transforms_keep_input_and_structure_witness:
  "read_contours contour_heap (Ref 6) = Some [two_vertex_contour] \<and>
   (\<exists>w h'. transformToPixels_heap CONFIG (Ref 6) canvas contour_heap = Some (w, h') \<and>
      take (length contour_heap) h' = contour_heap \<and>
      read_contours h' (Ref 6) = Some [two_vertex_contour] \<and>
      read_contours h' w = Some (transformToPixels CONFIG [two_vertex_contour] canvas)) \<and>
   (\<exists>w h'. transformToGeo_heap CONFIG (Ref 6) taipei_window contour_heap = Some (w, h') \<and>
      take (length contour_heap) h' = contour_heap \<and>
      read_contours h' (Ref 6) = Some [two_vertex_contour] \<and>
      read_contours h' w = Some (transformToGeo CONFIG [two_vertex_contour] taipei_window))"
  using transforms_keep_input_and_structure[OF read_contour_heap, of CONFIG taipei_window canvas]
    read_contour_heap
  by blast

text \<open>
  C8.  \<open>process\<close> always returns and leaves the configuration of the module as it found
  it; of the world it changes the console and the count of clock readings only.  Its
  contours are the pixel transform of the contours of the field of its arguments under
  the configuration, and its result is the one of the function \<open>process\<close> above at the
  two clock readings.  So two calls with the same points, bounds and pixel bounds in two
  worlds with the same configuration, whatever their clocks read and their consoles
  hold, give the same contours (values, normalized values, coordinates and pixel
  coordinates), the same field and the same counts; and so does a second call in the
  world the first one has left behind.
\<close>

theorem process_stateless:
  assumes "config_obj w' = config_obj w"
  shows "\<exists>r r' w1 w1'.
     process_in isolines rs b pb w = Some (r, w1) \<and>
     process_in isolines rs b pb w' = Some (r', w1') \<and>
     config_obj w1 = config_obj w \<and> config_obj w1' = config_obj w' \<and>
     contours r' = contours r \<and> field r' = field r \<and>
     resourceCount (stats r') = resourceCount (stats r) \<and>
     contourCount (stats r') = contourCount (stats r) \<and>
     Some (field r) = generateScalarField (config_obj w) rs b \<and>
     contours r = transformToPixels (config_obj w)
                    (generateContours (config_obj w) isolines (field r) no_options) pb \<and>
     process (config_obj w) isolines (clock w (readings w)) (clock w (Suc (readings w))) rs b pb
       = Some r \<and>
     (\<exists>r2 w2. process_in isolines rs b pb w1 = Some (r2, w2) \<and>
        contours r2 = contours r \<and> field r2 = field r)"
proof -
  obtain fld where fld: "generateScalarField (config_obj w) rs b = Some fld"
    using generateScalarField_total by blast
  then have fld': "generateScalarField (config_obj w') rs b = Some fld"
    by (simp add: assms)
  note p = process_in_eq[OF fld, of isolines pb] and p' = process_in_eq[OF fld', of isolines pb]
  obtain r w1 where r: "process_in isolines rs b pb w = Some (r, w1)"
    "contours r = transformToPixels (config_obj w)
       (generateContours (config_obj w) isolines fld no_options) pb"
    "field r = fld" "resourceCount (stats r) = length rs"
    "contourCount (stats r) = length (generateContours (config_obj w) isolines fld no_options)"
    "config_obj w1 = config_obj w"
    "process (config_obj w) isolines (clock w (readings w)) (clock w (Suc (readings w))) rs b pb
       = Some r"
    using p by (simp add: process_def fld Let_def)
  obtain r' w1' where r': "process_in isolines rs b pb w' = Some (r', w1')"
    "contours r' = transformToPixels (config_obj w)
       (generateContours (config_obj w) isolines fld no_options) pb"
    "field r' = fld" "resourceCount (stats r') = length rs"
    "contourCount (stats r') = length (generateContours (config_obj w) isolines fld no_options)"
    "config_obj w1' = config_obj w'"
    using p' by (simp add: assms)
  have fld1: "generateScalarField (config_obj w1) rs b = Some fld"
    by (simp add: r(6) fld)
  obtain r2 w2 where r2: "process_in isolines rs b pb w1 = Some (r2, w2)"
    "contours r2 = contours r" "field r2 = field r"
    using process_in_eq[OF fld1, of isolines pb] by (simp add: r(2,3,6))
  show ?thesis
    using r r' r2 fld by (intro exI[of _ r] exI[of _ r'] exI[of _ w1] exI[of _ w1']) auto
qed

text \<open>
  The theorem at two worlds with the shipped configuration, one with an empty console
  and a clock that starts at 0, the other with a line on the console, five readings
  taken and a clock that starts at 1000.
\<close>

theorem process_stateless_witness:
  "config_obj busy_world = config_obj quiet_world \<and>
   (\<exists>r r' w1 w1'.
     process_in no_isolines [central_hospital] taipei_window canvas quiet_world = Some (r, w1) \<and>
     process_in no_isolines [central_hospital] taipei_window canvas busy_world = Some (r', w1') \<and>
     config_obj w1 = config_obj quiet_world \<and>
     contours r' = contours r \<and> field r' = field r)"
proof -
  have h: "config_obj busy_world = config_obj quiet_world"
    by (simp add: busy_world_def quiet_world_def)
  from process_stateless[OF h, of no_isolines "[central_hospital]" taipei_window canvas]
  show ?thesis using h by blast
qed

text \<open>
  C9.  For a valid configuration and a window with \<open>south = north\<close> or \<open>west = east\<close>, a
  cell size is zero, and \<open>generateScalarField\<close> still returns a grid, of the full
  size, all of whose values are finite: neither Infinity nor NaN reaches the grid.
\<close>

theorem degenerate_window_field_finite:
  assumes "valid_config cfg" "south b = north b \<or> west b = east b"
  shows "(cell_size (east b) (west b) (gridWidth cfg) = Num 0 \<or>
          cell_size (north b) (south b) (gridHeight cfg) = Num 0)
       \<and> (\<exists>fld. generateScalarField cfg rs b = Some fld \<and>
                 length fld = gridWidth cfg * gridHeight cfg \<and> list_all is_finite fld)"
proof -
  have cfg: "0 < gridWidth cfg" "0 < gridHeight cfg"
    using assms(1) by (simp_all add: valid_config_def)
  have "cell_size (east b) (west b) (gridWidth cfg) = Num 0 \<or>
      cell_size (north b) (south b) (gridHeight cfg) = Num 0"
    using assms(2) by (auto simp: cell_size_Num[OF cfg(1)] cell_size_Num[OF cfg(2)])
  moreover have "\<exists>fld. generateScalarField cfg rs b = Some fld \<and>
      length fld = gridWidth cfg * gridHeight cfg \<and> list_all is_finite fld"
  proof -
    from field_cells_nonneg[OF assms(1), of rs b]
    obtain fld where fld: "generateScalarField cfg rs b = Some fld"
      "length fld = gridWidth cfg * gridHeight cfg" "\<forall>v\<in>set fld. \<exists>r\<ge>0. v = Num r"
      by blast
    have "is_finite v" if "v \<in> set fld" for v
      using fld(3) that by (auto simp: is_finite_def)
    then have "list_all is_finite fld" by (simp add: list_all_iff)
    with fld(1,2) show ?thesis by blast
  qed
  ultimately show ?thesis by blast
qed

text \<open>
  An instance: the window collapsed to a point, with a hospital at that point.
\<close>

theorem degenerate_window_field_finite_witness:
  "valid_config CONFIG \<and> south point_window = north point_window \<and>
   cell_size (east point_window) (west point_window) (gridWidth CONFIG) = Num 0 \<and>
   (\<exists>fld. generateScalarField CONFIG [corner_hospital] point_window = Some fld \<and>
          length fld = 22500 \<and> list_all is_finite fld)"
proof -
  have h: "south point_window = north point_window \<or> west point_window = east point_window"
    by (simp add: point_window_def)
  from degenerate_window_field_finite[OF CONFIG_valid h, of "[corner_hospital]"]
  show ?thesis using CONFIG_valid
    by (simp add: point_window_def cell_size_def js_sub_def) (simp add: CONFIG_def)
qed

text \<open>
  C10.  For a valid configuration and a window with non-zero cell sizes, every
  contribution is non-negative, every value of the grid \<open>generateScalarField\<close> returns
  is finite and non-negative, and the minimum and maximum that \<open>generateContours\<close>
  scans satisfy \<open>0 \<le> min \<le> max\<close>.
\<close>

theorem field_nonnegative:
  assumes "valid_config cfg" "west b \<noteq> east b" "south b \<noteq> north b"
  shows "0 \<le> gaussian (params_of cfg r) d
       \<and> (\<exists>fld mn mx. generateScalarField cfg rs b = Some fld \<and>
             (\<forall>v\<in>set fld. \<exists>e\<ge>0. v = Num e) \<and>
             field_min_max fld = (Num mn, Num mx) \<and> 0 \<le> mn \<and> mn \<le> mx)"
proof -
  have cfg: "0 < gridWidth cfg" "0 < gridHeight cfg" "profiles_positive cfg"
    using assms(1) by (simp_all add: valid_config_def)
  have "0 \<le> gaussian (params_of cfg r) d"
    using params_positive(2)[OF cfg(3), of r] by (simp add: gaussian_def)
  moreover
  from field_cells_nonneg[OF assms(1), of rs b]
  obtain fld where fld: "generateScalarField cfg rs b = Some fld"
    "length fld = gridWidth cfg * gridHeight cfg" "\<forall>v\<in>set fld. \<exists>e\<ge>0. v = Num e"
    by blast
  have "fld \<noteq> []" using fld(2) cfg(1,2) by auto
  from field_min_max_nonneg[OF this fld(3)] fld(1,3)
  have "\<exists>fld mn mx. generateScalarField cfg rs b = Some fld \<and>
      (\<forall>v\<in>set fld. \<exists>e\<ge>0. v = Num e) \<and>
      field_min_max fld = (Num mn, Num mx) \<and> 0 \<le> mn \<and> mn \<le> mx"
    by blast
  ultimately show ?thesis by blast
qed

text \<open>
  An instance: one hospital in the window.
\<close>

theorem field_nonnegative_witness:
  "valid_config CONFIG \<and> west taipei_window \<noteq> east taipei_window \<and>
   south taipei_window \<noteq> north taipei_window \<and>
   (\<exists>fld mn mx. generateScalarField CONFIG [central_hospital] taipei_window = Some fld \<and>
      (\<forall>v\<in>set fld. \<exists>e\<ge>0. v = Num e) \<and>
      field_min_max fld = (Num mn, Num mx) \<and> 0 \<le> mn \<and> mn \<le> mx)"
proof -
  have h: "west taipei_window \<noteq> east taipei_window" "south taipei_window \<noteq> north taipei_window"
    by (simp_all add: taipei_window_def)
  from field_nonnegative[OF CONFIG_valid h, THEN conjunct2, of "[central_hospital]"]
  show ?thesis using CONFIG_valid h by blast
qed

end
